theory Spec2Isabelle
  imports Main
begin

section \<open>Layer step-reveal plugin (reveal-svg-layers): strings and attributes\<close>

text \<open>
  Strings are byte lists in UTF-8. On a string of ASCII bytes \<open>toLowerCase\<close> maps the
  letters A-Z and \<open>trim\<close> strips tab, line feed, vertical tab, form feed, carriage
  return and space from both ends, as the functions of the language do. What the two
  functions do with a string that holds a byte outside ASCII (case folding of other
  letters, the no-break space and the other Unicode white space) is not spelled out: it is
  taken as a parameter, the pair \<open>J\<close> of functions of the JavaScript runtime, and every
  statement below holds for every such pair.
\<close>

record js_strings =
  unicode_lower :: "string \<Rightarrow> string"
  unicode_trim :: "string \<Rightarrow> string"

definition is_ascii :: "string \<Rightarrow> bool" where
  "is_ascii s = list_all (\<lambda>ch. (of_char ch :: nat) < 128) s"

definition lower_char :: "char \<Rightarrow> char" where
  "lower_char ch =
     (let n = (of_char ch :: nat) in if 65 \<le> n \<and> n \<le> 90 then char_of (n + 32) else ch)"

definition toLowerCase :: "js_strings \<Rightarrow> string \<Rightarrow> string" where
  "toLowerCase J s = (if is_ascii s then map lower_char s else unicode_lower J s)"

definition is_space :: "char \<Rightarrow> bool" where
  "is_space ch = (let n = (of_char ch :: nat) in (9 \<le> n \<and> n \<le> 13) \<or> n = 32)"

definition trim :: "js_strings \<Rightarrow> string \<Rightarrow> string" where
  "trim J s =
     (if is_ascii s then rev (dropWhile is_space (rev (dropWhile is_space s)))
      else unicode_trim J s)"

text \<open>\<open>s.split(',')\<close>: the empty string gives one empty piece.\<close>

fun split_on :: "char \<Rightarrow> string \<Rightarrow> string list" where
  "split_on sep [] = [[]]"
| "split_on sep (ch # rest) =
     (if ch = sep then [] # split_on sep rest
      else (case split_on sep rest of
              [] \<Rightarrow> [[ch]]
            | w # ws \<Rightarrow> (ch # w) # ws))"

text \<open>\<open>a || b\<close> on an attribute value: \<open>null\<close> and the empty string are falsy.\<close>

definition or_else :: "string option \<Rightarrow> string \<Rightarrow> string" where
  "or_else a b = (case a of None \<Rightarrow> b | Some v \<Rightarrow> if v = [] then b else v)"

definition toList :: "js_strings \<Rightarrow> string option \<Rightarrow> string list" where
  "toList J attrVal =
     filter (\<lambda>s. s \<noteq> []) (map (trim J) (split_on CHR '','' (or_else attrVal [])))"

section \<open>Elements\<close>

type_synonym node = nat

text \<open>
  A \<open>g\<close> element of the graphic: its identity and the attributes the plugin reads.
  \<open>top_level\<close> says that it is a child of the root (\<open>:scope > g\<close>).
\<close>

record g_elem =
  g_node :: node
  inkscape_groupmode :: "string option"
  groupmode :: "string option"
  id_attr :: "string option"
  inkscape_label :: "string option"
  data_label :: "string option"
  top_level :: bool

text \<open>
  The root of a parsed graphic with its \<open>g\<close> descendants in document order.
  \<open>parsererror\<close> marks the error document that \<open>DOMParser\<close> returns for malformed
  markup; the plugin never reads it.
\<close>

record svg_elem =
  svg_node :: node
  width_attr :: "string option"
  height_attr :: "string option"
  style_attr :: "string option"
  groups :: "g_elem list"
  parsererror :: bool

record container =
  data_src :: "string option"
  data_base :: "string option"
  data_include :: "string option"
  data_order :: "string option"
  data_fragment_class :: "string option"
  rsvgProcessed :: bool
  inline_svg :: "svg_elem option"
  kids :: "node list"

definition el_id :: "g_elem \<Rightarrow> string" where
  "el_id el = (case id_attr el of None \<Rightarrow> [] | Some v \<Rightarrow> v)"

definition getInkscapeLabel :: "g_elem \<Rightarrow> string" where
  "getInkscapeLabel el =
     or_else (inkscape_label el) (or_else (data_label el) (or_else (Some (el_id el)) []))"

definition is_layer :: "g_elem \<Rightarrow> bool" where
  "is_layer g = (inkscape_groupmode g = Some ''layer'' \<or> groupmode g = Some ''layer'')"

definition findLayers :: "svg_elem \<Rightarrow> g_elem list" where
  "findLayers svgEl =
     (let inkscapeLayers = filter is_layer (groups svgEl) in
      if inkscapeLayers \<noteq> [] then inkscapeLayers
      else
        let topLevelGroups = filter (\<lambda>g. top_level g \<and> id_attr g \<noteq> None) (groups svgEl) in
        if topLevelGroups \<noteq> [] then topLevelGroups
        else groups svgEl)"

section \<open>Partition into base and step layers\<close>

definition byName :: "js_strings \<Rightarrow> g_elem \<Rightarrow> string" where
  "byName J el = toLowerCase J (getInkscapeLabel el)"

definition baseSet :: "js_strings \<Rightarrow> container \<Rightarrow> string set" where
  "baseSet J c = set (map (toLowerCase J) (toList J (data_base c)))"

text \<open>The \<open>for (const g of allLayers)\<close> loop: each group is pushed on one of the two lists.\<close>

fun partition_loop ::
  "js_strings \<Rightarrow> string set \<Rightarrow> g_elem list \<Rightarrow> g_elem list \<times> g_elem list \<Rightarrow> g_elem list \<times> g_elem list" where
  "partition_loop J bs [] acc = acc"
| "partition_loop J bs (g # rest) (baseLayers, stepLayers) =
     (if byName J g \<in> bs then partition_loop J bs rest (baseLayers @ [g], stepLayers)
      else partition_loop J bs rest (baseLayers, stepLayers @ [g]))"

text \<open>
  \<open>new Map(stepLayers.map(el => [byName(el), el]))\<close>: of two groups with one name the
  later one is kept, so the lookup reads the reversed list.
\<close>

definition mapByName :: "js_strings \<Rightarrow> g_elem list \<Rightarrow> string \<Rightarrow> g_elem option" where
  "mapByName J stepLayers = map_of (rev (map (\<lambda>el. (byName J el, el)) stepLayers))"

text \<open>\<open>includeList.map(n => mapByName.get(n.toLowerCase())).filter(Boolean)\<close>\<close>

definition lookups :: "js_strings \<Rightarrow> g_elem list \<Rightarrow> string list \<Rightarrow> g_elem list" where
  "lookups J stepLayers includeList =
     map the (filter (\<lambda>r. r \<noteq> None)
       (map (\<lambda>n. mapByName J stepLayers (toLowerCase J n)) includeList))"

definition order_of :: "js_strings \<Rightarrow> container \<Rightarrow> string" where
  "order_of J c = toLowerCase J (or_else (data_order c) ''document'')"

text \<open>Lines 109 to 139 of \<open>buildSteps\<close>: the pair \<open>(baseLayers, stepLayers)\<close>.\<close>

definition classify :: "js_strings \<Rightarrow> container \<Rightarrow> svg_elem \<Rightarrow> g_elem list \<times> g_elem list" where
  "classify J c svg =
     (let allLayers = findLayers svg;
          includeList = toList J (data_include c);
          (baseLayers, stepLayers) = partition_loop J (baseSet J c) allLayers ([], [])
      in if includeList \<noteq> [] then
           (baseLayers, lookups J stepLayers includeList)
         else if order_of J c = ''reverse'' then (baseLayers, rev stepLayers)
         else (baseLayers, stepLayers))"

definition baseLayers_of :: "js_strings \<Rightarrow> container \<Rightarrow> svg_elem \<Rightarrow> g_elem list" where
  "baseLayers_of J c svg = fst (classify J c svg)"

definition stepLayers_of :: "js_strings \<Rightarrow> container \<Rightarrow> svg_elem \<Rightarrow> g_elem list" where
  "stepLayers_of J c svg = snd (classify J c svg)"

text \<open>The groups that are not base layers, in document order.\<close>

definition non_base :: "js_strings \<Rightarrow> container \<Rightarrow> svg_elem \<Rightarrow> g_elem list" where
  "non_base J c svg = filter (\<lambda>g. byName J g \<notin> baseSet J c) (findLayers svg)"

section \<open>The document and the plugin's state\<close>

datatype js_error = Error string | TypeError string

fun message :: "js_error \<Rightarrow> string" where
  "message (Error m) = m"
| "message (TypeError m) = m"

text \<open>
  What the plugin stores on an element it may meet as a fragment: the class string, the two
  \<open>data-rsvg-*\<close> attributes and the \<open>__rsvgLayer\<close> property. An element with no entry in
  the store has none of them.
\<close>

record span_elem =
  className :: string
  data_rsvg_uid :: "string option"
  data_rsvg_index :: "string option"
  rsvgLayer :: "g_elem option"

text \<open>The variables that the closures of one \<open>buildSteps\<close> call capture.\<close>

record ctx =
  ctx_container :: nat
  ctx_uid :: string
  ctx_stepLayers :: "g_elem list"
  ctx_placeholders :: "node list"

datatype handler = OnFragmentShown ctx | OnFragmentHidden ctx | OnSlideChanged ctx

text \<open>
  \<open>hidden\<close> holds the elements that carry the class \<open>rsvg-hidden\<close>, \<open>visible\<close> those that
  carry the class \<open>visible\<close> (written by the host deck). \<open>listeners\<close> is the deck's event
  bus, \<open>selected\<close> the containers that match the selector, in document order.
\<close>

record state =
  containers :: "nat \<Rightarrow> container"
  selected :: "nat list"
  hidden :: "node set"
  visible :: "node set"
  spans :: "node \<Rightarrow> span_elem option"
  listeners :: "(string \<times> handler) list"
  teardownFns :: "ctx list"
  uniq_c :: nat
  console :: "string list"
  next_node :: node
  style_injected :: bool

type_synonym outcome = "js_error option \<times> state"

text \<open>\<open>xs.forEach(f)\<close> where \<open>f\<close> may throw: the loop stops at the first exception, and what
  was written before stays written.\<close>

fun forEach :: "('a \<Rightarrow> state \<Rightarrow> outcome) \<Rightarrow> 'a list \<Rightarrow> state \<Rightarrow> outcome" where
  "forEach f [] s = (None, s)"
| "forEach f (x # xs) s =
     (case f x s of
        (None, s') \<Rightarrow> forEach f xs s'
      | (Some e, s') \<Rightarrow> (Some e, s'))"

definition hideLayer :: "g_elem \<Rightarrow> state \<Rightarrow> state" where
  "hideLayer el s = s\<lparr>hidden := insert (g_node el) (hidden s)\<rparr>"

definition showLayer :: "g_elem \<Rightarrow> state \<Rightarrow> state" where
  "showLayer el s = s\<lparr>hidden := hidden s - {g_node el}\<rparr>"

text \<open>\<open>showLayer(x)\<close> and \<open>hideLayer(x)\<close> where \<open>x\<close> may be \<open>undefined\<close>: reading
  \<open>classList\<close> of \<open>undefined\<close> throws.\<close>

definition showLayer_ref :: "g_elem option \<Rightarrow> state \<Rightarrow> outcome" where
  "showLayer_ref r s =
     (case r of
        None \<Rightarrow> (Some (TypeError ''el is undefined''), s)
      | Some el \<Rightarrow> (None, showLayer el s))"

definition hideLayer_ref :: "g_elem option \<Rightarrow> state \<Rightarrow> outcome" where
  "hideLayer_ref r s =
     (case r of
        None \<Rightarrow> (Some (TypeError ''el is undefined''), s)
      | Some el \<Rightarrow> (None, hideLayer el s))"

definition rsvgLayer_of :: "state \<Rightarrow> node \<Rightarrow> g_elem option" where
  "rsvgLayer_of s ph = (case spans s ph of None \<Rightarrow> None | Some sp \<Rightarrow> rsvgLayer sp)"

definition uid_of :: "state \<Rightarrow> node \<Rightarrow> string option" where
  "uid_of s ph = (case spans s ph of None \<Rightarrow> None | Some sp \<Rightarrow> data_rsvg_uid sp)"

fun string_of_nat :: "nat \<Rightarrow> string" where
  "string_of_nat n =
     (if n < 10 then [char_of (48 + n)]
      else string_of_nat (n div 10) @ [char_of (48 + n mod 10)])"

declare string_of_nat.simps [simp del]

definition uniqId :: "string \<Rightarrow> state \<Rightarrow> string \<times> state" where
  "uniqId prefix s =
     (prefix @ ''-'' @ string_of_nat (Suc (uniq_c s)), s\<lparr>uniq_c := Suc (uniq_c s)\<rparr>)"

definition appendChild :: "nat \<Rightarrow> node \<Rightarrow> state \<Rightarrow> state" where
  "appendChild k n s =
     s\<lparr>containers := (containers s)(k := (containers s k)\<lparr>kids := kids (containers s k) @ [n]\<rparr>)\<rparr>"

text \<open>\<open>ph.remove()\<close>: the node leaves the child list of its parent, whichever it is.\<close>

definition remove_node :: "node \<Rightarrow> state \<Rightarrow> state" where
  "remove_node n s =
     s\<lparr>containers := (\<lambda>k. (containers s k)\<lparr>kids := removeAll n (kids (containers s k))\<rparr>)\<rparr>"

text \<open>
  The deck's \<open>on\<close> and \<open>off\<close> are those of an event target: \<open>on\<close> with a new closure adds
  a listener, \<open>off\<close> removes the listener registered for that name and closure.
\<close>

definition deck_on :: "string \<Rightarrow> handler \<Rightarrow> state \<Rightarrow> state" where
  "deck_on nm h s = s\<lparr>listeners := listeners s @ [(nm, h)]\<rparr>"

definition deck_off :: "string \<Rightarrow> handler \<Rightarrow> state \<Rightarrow> state" where
  "deck_off nm h s = s\<lparr>listeners := removeAll (nm, h) (listeners s)\<rparr>"

section \<open>buildSteps\<close>

definition extraFrag_of :: "container \<Rightarrow> string \<Rightarrow> string" where
  "extraFrag_of c fragmentClass =
     or_else (data_fragment_class c) (or_else (Some fragmentClass) [])"

text \<open>The span that one round of \<open>stepLayers.map((layerEl, i) => ...)\<close> creates.\<close>

definition new_span :: "string \<Rightarrow> string \<Rightarrow> nat \<Rightarrow> g_elem \<Rightarrow> span_elem" where
  "new_span uid extraFrag i layerEl =
     \<lparr>className = ''fragment rsvg-fragment'' @ (if extraFrag \<noteq> [] then '' '' @ extraFrag else []),
      data_rsvg_uid = Some uid,
      data_rsvg_index = Some (string_of_nat i),
      rsvgLayer = Some layerEl\<rparr>"

fun make_placeholders ::
  "nat \<Rightarrow> string \<Rightarrow> string \<Rightarrow> g_elem list \<Rightarrow> nat \<Rightarrow> state \<Rightarrow> node list \<times> state" where
  "make_placeholders k uid extraFrag [] i s = ([], s)"
| "make_placeholders k uid extraFrag (layerEl # rest) i s =
     (let span = next_node s;
          s1 = s\<lparr>next_node := Suc span,
                 spans := (spans s)(span := Some (new_span uid extraFrag i layerEl))\<rparr>;
          s2 = appendChild k span s1;
          (ps, s3) = make_placeholders k uid extraFrag rest (Suc i) s2
      in (span # ps, s3))"

text \<open>The body of \<open>placeholders.forEach(ph => ...)\<close> in \<open>syncFromVisibleFragments\<close>.\<close>

definition sync_body :: "node \<Rightarrow> state \<Rightarrow> outcome" where
  "sync_body ph s =
     (if ph \<in> visible s then showLayer_ref (rsvgLayer_of s ph) s else (None, s))"

definition syncFromVisibleFragments :: "ctx \<Rightarrow> state \<Rightarrow> outcome" where
  "syncFromVisibleFragments cx s =
     forEach sync_body (ctx_placeholders cx) (fold hideLayer (ctx_stepLayers cx) s)"

definition onFragmentShown :: "ctx \<Rightarrow> node option \<Rightarrow> state \<Rightarrow> outcome" where
  "onFragmentShown cx fragment s =
     (case fragment of
        None \<Rightarrow> (None, s)
      | Some ph \<Rightarrow>
          if uid_of s ph = Some (ctx_uid cx) then showLayer_ref (rsvgLayer_of s ph) s
          else (None, s))"

definition onFragmentHidden :: "ctx \<Rightarrow> node option \<Rightarrow> state \<Rightarrow> outcome" where
  "onFragmentHidden cx fragment s =
     (case fragment of
        None \<Rightarrow> (None, s)
      | Some ph \<Rightarrow>
          if uid_of s ph = Some (ctx_uid cx) then hideLayer_ref (rsvgLayer_of s ph) s
          else (None, s))"

text \<open>The current slide is given by the containers that it contains.\<close>

definition onSlideChanged :: "ctx \<Rightarrow> nat list option \<Rightarrow> state \<Rightarrow> outcome" where
  "onSlideChanged cx currentSlide s =
     (case currentSlide of
        None \<Rightarrow> (None, s)
      | Some current \<Rightarrow>
          if ctx_container cx \<in> set current then syncFromVisibleFragments cx s
          else (None, s))"

text \<open>
  \<open>buildSteps\<close> up to the registration of the teardown function. The module build and
  the UMD build of the plugin hold the same \<open>buildSteps\<close>, statement for statement; the
  set \<open>includeSet\<close> that both compute is never read and is left out. \<open>deck\<close> is set by
  \<open>init\<close> before any container is initialised.
\<close>

definition build_ctx :: "js_strings \<Rightarrow> nat \<Rightarrow> svg_elem \<Rightarrow> string \<Rightarrow> state \<Rightarrow> ctx \<times> state" where
  "build_ctx J k svg fragmentClass s =
     (let c = containers s k;
          extraFrag = extraFrag_of c fragmentClass;
          baseLayers = baseLayers_of J c svg;
          stepLayers = stepLayers_of J c svg;
          s1 = fold showLayer baseLayers s;
          s2 = fold hideLayer stepLayers s1;
          (uid, s3) = uniqId ''rsvgc'' s2;
          (placeholders, s4) = make_placeholders k uid extraFrag stepLayers 0 s3;
          cx = \<lparr>ctx_container = k, ctx_uid = uid, ctx_stepLayers = stepLayers,
                ctx_placeholders = placeholders\<rparr>;
          s5 = deck_on ''fragmentshown'' (OnFragmentShown cx) s4;
          s6 = deck_on ''fragmenthidden'' (OnFragmentHidden cx) s5;
          s7 = deck_on ''slidechanged'' (OnSlideChanged cx) s6
      in (cx, s7\<lparr>teardownFns := teardownFns s7 @ [cx]\<rparr>))"

definition buildSteps :: "js_strings \<Rightarrow> nat \<Rightarrow> svg_elem \<Rightarrow> string \<Rightarrow> state \<Rightarrow> outcome" where
  "buildSteps J k svg fragmentClass s =
     (let (cx, s') = build_ctx J k svg fragmentClass s in syncFromVisibleFragments cx s')"

text \<open>
  The closure that \<open>buildSteps\<close> creates in state \<open>s\<close>: the uid that \<open>uniqId\<close> hands out
  next, the step layers, and the nodes of the spans, which are the next unused ones.
\<close>

definition uid_next :: "state \<Rightarrow> string" where
  "uid_next s = ''rsvgc-'' @ string_of_nat (Suc (uniq_c s))"

definition ctx_next :: "js_strings \<Rightarrow> nat \<Rightarrow> svg_elem \<Rightarrow> state \<Rightarrow> ctx" where
  "ctx_next J k svg s =
     \<lparr>ctx_container = k, ctx_uid = uid_next s,
      ctx_stepLayers = stepLayers_of J (containers s k) svg,
      ctx_placeholders =
        [next_node s ..< next_node s + length (stepLayers_of J (containers s k) svg)]\<rparr>"

text \<open>The function pushed on \<open>teardownFns\<close>. The UMD build wraps each \<open>deck.off\<close> in a
  \<open>try\<close> of its own; \<open>off\<close> of an event target does not throw.\<close>

definition teardown :: "ctx \<Rightarrow> state \<Rightarrow> state" where
  "teardown cx s =
     (let s1 = deck_off ''fragmentshown'' (OnFragmentShown cx) s;
          s2 = deck_off ''fragmenthidden'' (OnFragmentHidden cx) s1;
          s3 = deck_off ''slidechanged'' (OnSlideChanged cx) s2;
          s4 = fold remove_node (ctx_placeholders cx) s3
      in fold showLayer (ctx_stepLayers cx) s4)"

definition destroy :: "state \<Rightarrow> state" where
  "destroy s = (fold teardown (teardownFns s) s)\<lparr>teardownFns := []\<rparr>"

section \<open>Loading a graphic and initialising a container\<close>

record response =
  res_ok :: bool
  res_text :: "js_error + string"

text \<open>
  The network and the parser of the browser. \<open>fetch\<close> rejects (\<open>Inl\<close>) or resolves to a
  response; \<open>parseFromString\<close> never throws: for malformed markup it returns the error
  document, whose root has \<open>parsererror\<close> set.
\<close>

record env =
  fetch :: "string \<Rightarrow> js_error + response"
  parseFromString :: "string \<Rightarrow> svg_elem"
  opt_fragmentClass :: string

definition truthy :: "string option \<Rightarrow> bool" where
  "truthy a = (case a of None \<Rightarrow> False | Some v \<Rightarrow> v \<noteq> [])"

text \<open>\<open>document.importNode(root, true)\<close>: a deep copy, every element of it a new node.\<close>

definition importNode :: "svg_elem \<Rightarrow> state \<Rightarrow> svg_elem \<times> state" where
  "importNode root s =
     (let n = next_node s;
          gs = map (\<lambda>(i, g). g\<lparr>g_node := n + 1 + i\<rparr>) (enumerate 0 (groups root))
      in (root\<lparr>svg_node := n, groups := gs\<rparr>, s\<lparr>next_node := n + 1 + length gs\<rparr>))"

definition inlineExternalSvg ::
  "nat \<Rightarrow> string \<Rightarrow> env \<Rightarrow> state \<Rightarrow> js_error + (svg_elem \<times> state)" where
  "inlineExternalSvg k srcUrl e s =
     (case fetch e srcUrl of
        Inl err \<Rightarrow> Inl err
      | Inr res \<Rightarrow>
          if \<not> res_ok res then Inl (Error (''Failed to load SVG: '' @ srcUrl))
          else (case res_text res of
                  Inl err \<Rightarrow> Inl err
                | Inr text \<Rightarrow>
                    let doc = parseFromString e text;
                        (svg, s1) = importNode doc s;
                        svg' = (if \<not> truthy (width_attr svg) \<and> \<not> truthy (height_attr svg)
                                then svg\<lparr>style_attr :=
                                       Some ''max-width:100%; height:auto; display:block;''\<rparr>
                                else svg)
                    in Inr (svg', appendChild k (svg_node svg') s1)))"

definition initContainer :: "js_strings \<Rightarrow> env \<Rightarrow> nat \<Rightarrow> state \<Rightarrow> outcome" where
  "initContainer J e k s =
     (if rsvgProcessed (containers s k) then (None, s)
      else
        let s1 = s\<lparr>containers := (containers s)(k := (containers s k)\<lparr>rsvgProcessed := True\<rparr>)\<rparr>;
            svg = inline_svg (containers s1 k);
            src = data_src (containers s1 k)
        in if svg = None \<and> truthy src then
             (case inlineExternalSvg k (the src) e s1 of
                Inl err \<Rightarrow> (None, s1\<lparr>console := console s1 @ [''[svg-layers] '' @ message err]\<rparr>)
              | Inr (svg', s2) \<Rightarrow> buildSteps J k svg' (opt_fragmentClass e) s2)
           else (case svg of
                   None \<Rightarrow> (None, s1)
                 | Some svg' \<Rightarrow> buildSteps J k svg' (opt_fragmentClass e) s1))"

definition ensureStyle :: "state \<Rightarrow> state" where
  "ensureStyle s = (if style_injected s then s else s\<lparr>style_injected := True\<rparr>)"

text \<open>
  \<open>init\<close>: every selected container is initialised. The promises are independent, so a
  rejection of one does not stop the others. \<open>initContainer\<close> sets the flag of its
  container before it waits for the network, and what follows the wait runs without
  interruption; here the containers finish in document order.
\<close>

definition init :: "js_strings \<Rightarrow> env \<Rightarrow> state \<Rightarrow> state" where
  "init J e s = fold (\<lambda>k s'. snd (initContainer J e k s')) (selected s) (ensureStyle s)"

section \<open>Events of the host deck\<close>

datatype deck_event =
  Fragmentshown "node option"
| Fragmenthidden "node option"
| Slidechanged "nat list option"

fun event_name :: "deck_event \<Rightarrow> string" where
  "event_name (Fragmentshown f) = ''fragmentshown''"
| "event_name (Fragmenthidden f) = ''fragmenthidden''"
| "event_name (Slidechanged c) = ''slidechanged''"

text \<open>A handler called with an event of another kind finds the field it reads undefined
  and does nothing.\<close>

fun call_handler :: "handler \<Rightarrow> deck_event \<Rightarrow> state \<Rightarrow> outcome" where
  "call_handler (OnFragmentShown cx) (Fragmentshown f) s = onFragmentShown cx f s"
| "call_handler (OnFragmentHidden cx) (Fragmenthidden f) s = onFragmentHidden cx f s"
| "call_handler (OnSlideChanged cx) (Slidechanged c) s = onSlideChanged cx c s"
| "call_handler (OnFragmentShown cx) ev s = (None, s)"
| "call_handler (OnFragmentHidden cx) ev s = (None, s)"
| "call_handler (OnSlideChanged cx) ev s = (None, s)"

text \<open>Dispatch: every listener registered for the event's name runs, in the order of
  registration; an exception of one listener does not stop the next.\<close>

definition emit_body :: "deck_event \<Rightarrow> string \<times> handler \<Rightarrow> state \<Rightarrow> state" where
  "emit_body ev = (\<lambda>(nm, h) s. if nm = event_name ev then snd (call_handler h ev s) else s)"

definition emit :: "deck_event \<Rightarrow> state \<Rightarrow> state" where
  "emit ev s = fold (emit_body ev) (listeners s) s"

text \<open>What can happen to an initialised plugin: the deck emits an event, the deck rewrites
  which elements carry the class \<open>visible\<close>, or the plugin is destroyed.\<close>

datatype action = Emit deck_event | HostVisible "node set" | Destroy

fun step :: "action \<Rightarrow> state \<Rightarrow> state" where
  "step (Emit ev) s = emit ev s"
| "step (HostVisible V) s = s\<lparr>visible := V\<rparr>"
| "step Destroy s = destroy s"

definition run :: "action list \<Rightarrow> state \<Rightarrow> state" where
  "run acts s = fold step acts s"

section \<open>Floating debug helper (floating-dev-helper.js)\<close>

text \<open>
  The geometry that \<open>measure\<close> computes is floating point and is left out: the model keeps
  which writes happen and when. \<open>HudText\<close> is a write of the HUD's text, \<open>StyleLeftTop\<close>
  the pair of writes to \<open>el.style.left\<close> and \<open>el.style.top\<close>, \<open>SetProperty v\<close> a call
  of \<open>el.style.setProperty(v, ...)\<close>.
\<close>

datatype effect = HudText | StyleLeftTop | SetProperty string

text \<open>The variables of one \<open>enableDrag\<close> call: the flag \<open>dragging\<close>, whether a grip was
  found and got the \<open>pointerdown\<close> listener, and whether the window holds \<open>onMove\<close> and
  \<open>onUp\<close> of this call.\<close>

record drag_closure =
  dragging :: bool
  grip_listener :: bool
  win_move :: bool
  win_up :: bool

text \<open>
  An element \<open>.floating.debug\<close>. \<open>in_section\<close>: \<open>el.closest('section')\<close> is not null.
  \<open>raf\<close> holds, for each pending chain of animation frames, how many frames are left.
\<close>

record floating =
  in_section :: bool
  grip_children :: nat
  hud_children :: nat
  hudInfo :: bool
  copy_listeners :: nat
  closures :: "drag_closure list"
  observers :: nat
  raf :: "nat list"
  processed :: bool
  effects :: "effect list"

record page =
  style_tags :: nat
  floats :: "floating list"

definition injectStyles :: "page \<Rightarrow> page" where
  "injectStyles d = (if style_tags d > 0 then d else d\<lparr>style_tags := Suc (style_tags d)\<rparr>)"

definition addGrip :: "floating \<Rightarrow> floating" where
  "addGrip el = (if grip_children el > 0 then el else el\<lparr>grip_children := Suc (grip_children el)\<rparr>)"

definition addHud :: "floating \<Rightarrow> floating" where
  "addHud el =
     (if hud_children el > 0 then el
      else el\<lparr>hud_children := Suc (hud_children el), hudInfo := True,
              copy_listeners := Suc (copy_listeners el)\<rparr>)"

definition updateHudAndVars :: "bool \<Rightarrow> floating \<Rightarrow> floating" where
  "updateHudAndVars mirror el =
     (let el1 = (if hudInfo el then el\<lparr>effects := effects el @ [HudText]\<rparr> else el)
      in if mirror then
           el1\<lparr>effects := effects el1 @
                  [SetProperty ''--floating-left'', SetProperty ''--floating-top'',
                   SetProperty ''--floating-w'', SetProperty ''--floating-h'']\<rparr>
         else el1)"

definition upd_closure :: "nat \<Rightarrow> (drag_closure \<Rightarrow> drag_closure) \<Rightarrow> floating \<Rightarrow> floating" where
  "upd_closure i f el = el\<lparr>closures := (closures el)[i := f (closures el ! i)]\<rparr>"

definition startDrag :: "nat \<Rightarrow> floating \<Rightarrow> floating" where
  "startDrag i el = upd_closure i (\<lambda>cl. cl\<lparr>dragging := True, win_move := True, win_up := True\<rparr>) el"

definition onMove :: "nat \<Rightarrow> floating \<Rightarrow> floating" where
  "onMove i el =
     (if \<not> dragging (closures el ! i) then el
      else updateHudAndVars False (el\<lparr>effects := effects el @ [StyleLeftTop]\<rparr>))"

definition onUp :: "nat \<Rightarrow> floating \<Rightarrow> floating" where
  "onUp i el =
     updateHudAndVars True (upd_closure i (\<lambda>cl. cl\<lparr>dragging := False, win_move := False\<rparr>) el)"

definition enableDrag :: "floating \<Rightarrow> floating" where
  "enableDrag el =
     el\<lparr>closures := closures el @
          [\<lparr>dragging = False, grip_listener = (grip_children el > 0),
            win_move = False, win_up = False\<rparr>]\<rparr>"

definition observeResize :: "floating \<Rightarrow> floating" where
  "observeResize el = el\<lparr>observers := 1\<rparr>"

text \<open>\<open>initOne\<close>. \<open>ensurePositioningContext\<close> writes to the slide only, not to the
  element, and is left out.\<close>

definition initOne :: "floating \<Rightarrow> floating" where
  "initOne el =
     (if \<not> in_section el then el
      else
        let el1 = addGrip el;
            el2 = addHud el1;
            el3 = enableDrag el2;
            el4 = observeResize el3;
            el5 = el4\<lparr>raf := raf el4 @ [2]\<rparr>
        in el5\<lparr>processed := True\<rparr>)"

text \<open>
  The body of the \<open>forEach\<close> in \<open>initAll\<close>. For a processed element the slide is looked
  up again; when the element has no slide any more, \<open>measure\<close> reads a property of \<open>null\<close>
  and throws before anything is written. \<open>scan\<close> is the element after the call.
\<close>

definition scan_step :: "floating \<Rightarrow> js_error option \<times> floating" where
  "scan_step el =
     (if \<not> processed el then (None, initOne el)
      else if in_section el then (None, updateHudAndVars False el)
      else (Some (TypeError ''slide is null''), el))"

definition scan :: "floating \<Rightarrow> floating" where
  "scan el = snd (scan_step el)"

text \<open>\<open>forEach\<close> over the elements: an exception of the body ends the loop, and the
  elements after it are not visited.\<close>

fun scan_all :: "floating list \<Rightarrow> floating list" where
  "scan_all [] = []"
| "scan_all (el # els) =
     (case scan_step el of
        (None, el') \<Rightarrow> el' # scan_all els
      | (Some e, el') \<Rightarrow> el' # els)"

definition initAll :: "page \<Rightarrow> page" where
  "initAll d = (let d1 = injectStyles d in d1\<lparr>floats := scan_all (floats d1)\<rparr>)"

text \<open>
  What the browser delivers to one element: a \<open>pointerdown\<close> inside it (on the grip or not,
  with ALT or not), a \<open>pointermove\<close> or \<open>pointerup\<close> on the window, a notification of
  the resize observer, an animation frame.
\<close>

datatype pointer_event = PointerDown bool bool | PointerMove | PointerUp | ResizeTick | Frame

text \<open>\<open>pointerdown\<close>: the capturing listener of the element runs first and starts a drag
  when ALT is held; the listener of the grip runs when the grip is the target.\<close>

definition on_pointerdown :: "bool \<Rightarrow> bool \<Rightarrow> nat \<Rightarrow> floating \<Rightarrow> floating" where
  "on_pointerdown on_grip altKey i el =
     (let el1 = (if altKey then startDrag i el else el)
      in if on_grip \<and> grip_listener (closures el1 ! i) then startDrag i el1 else el1)"

definition on_pointermove :: "nat \<Rightarrow> floating \<Rightarrow> floating" where
  "on_pointermove i el = (if win_move (closures el ! i) then onMove i el else el)"

text \<open>\<open>onUp\<close> is registered with \<open>once\<close>: it is removed when it is called.\<close>

definition on_pointerup :: "nat \<Rightarrow> floating \<Rightarrow> floating" where
  "on_pointerup i el =
     (if win_up (closures el ! i)
      then onUp i (upd_closure i (\<lambda>cl. cl\<lparr>win_up := False\<rparr>) el)
      else el)"

definition on_frame :: "floating \<Rightarrow> floating" where
  "on_frame el =
     (let due = length (filter (\<lambda>n. n \<le> 1) (raf el));
          el1 = el\<lparr>raf := map (\<lambda>n. n - 1) (filter (\<lambda>n. 1 < n) (raf el))\<rparr>
      in ((updateHudAndVars False) ^^ due) el1)"

fun deliver :: "pointer_event \<Rightarrow> floating \<Rightarrow> floating" where
  "deliver (PointerDown on_grip altKey) el =
     fold (on_pointerdown on_grip altKey) [0 ..< length (closures el)] el"
| "deliver PointerMove el = fold on_pointermove [0 ..< length (closures el)] el"
| "deliver PointerUp el = fold on_pointerup [0 ..< length (closures el)] el"
| "deliver ResizeTick el = ((updateHudAndVars False) ^^ observers el) el"
| "deliver Frame el = on_frame el"

definition gesture :: "pointer_event list \<Rightarrow> floating \<Rightarrow> floating" where
  "gesture evs el = fold deliver evs el"

definition committed :: "floating \<Rightarrow> string list" where
  "committed el = concat (map (\<lambda>x. case x of SetProperty v \<Rightarrow> [v] | _ \<Rightarrow> []) (effects el))"

text \<open>What \<open>initOne\<close> attaches to an element.\<close>

definition decoration :: "floating \<Rightarrow> nat \<times> nat \<times> bool \<times> nat \<times> drag_closure list \<times> nat" where
  "decoration el =
     (grip_children el, hud_children el, hudInfo el, copy_listeners el, closures el, observers el)"

section \<open>The layers within the plugin's reach\<close>

fun handler_ctx :: "handler \<Rightarrow> ctx" where
  "handler_ctx (OnFragmentShown cx) = cx"
| "handler_ctx (OnFragmentHidden cx) = cx"
| "handler_ctx (OnSlideChanged cx) = cx"

text \<open>The layers that some element refers to through \<open>__rsvgLayer\<close>.\<close>

definition bound_layers :: "state \<Rightarrow> node set" where
  "bound_layers s = {g_node l |l p. rsvgLayer_of s p = Some l}"

text \<open>The layers that a registered handler or teardown function can name: the bound
  layers and the step layers held by the closures.\<close>

definition reach :: "state \<Rightarrow> node set" where
  "reach s =
     bound_layers s \<union>
     (\<Union>x\<in>set (listeners s). g_node ` set (ctx_stepLayers (handler_ctx (snd x)))) \<union>
     (\<Union>cx\<in>set (teardownFns s). g_node ` set (ctx_stepLayers cx))"

text \<open>The three listeners that one \<open>buildSteps\<close> call registers.\<close>

definition subscriptions :: "ctx \<Rightarrow> (string \<times> handler) set" where
  "subscriptions cx =
     {(''fragmentshown'', OnFragmentShown cx), (''fragmenthidden'', OnFragmentHidden cx),
      (''slidechanged'', OnSlideChanged cx)}"

section \<open>A sample document\<close>

text \<open>A runtime for running the definitions on ASCII strings; it leaves every other
  string as it is.\<close>

definition sample_js :: js_strings where
  "sample_js = \<lparr>unicode_lower = (\<lambda>s. s), unicode_trim = (\<lambda>s. s)\<rparr>"

text \<open>An Inkscape layer with a label, a graphic of five layers, a container without
  attributes and a plugin state before \<open>init\<close>, for running the definitions.\<close>

definition layer :: "node \<Rightarrow> string \<Rightarrow> g_elem" where
  "layer n lbl =
     \<lparr>g_node = n, inkscape_groupmode = Some ''layer'', groupmode = None, id_attr = None,
      inkscape_label = Some lbl, data_label = None, top_level = True\<rparr>"

definition sample_svg :: svg_elem where
  "sample_svg =
     \<lparr>svg_node = 0, width_attr = None, height_attr = None, style_attr = None,
      groups = [layer 1 ''Axes'', layer 2 ''Grid'', layer 3 ''Step1'', layer 4 ''Step2'',
                layer 5 ''Step3''],
      parsererror = False\<rparr>"

text \<open>
  A runtime that knows a little of Unicode: it folds the capital letters of the Latin-1
  supplement (the bytes \<open>C3 80\<close> to \<open>C3 9E\<close> without \<open>C3 97\<close>) with the ASCII ones,
  and it strips the no-break space (the bytes \<open>C2 A0\<close>) with the ASCII white space.
\<close>

fun lower_latin :: "string \<Rightarrow> string" where
  "lower_latin (c # d # rest) =
     (if c = CHR 0xC3 \<and> 128 \<le> (of_char d :: nat) \<and> (of_char d :: nat) \<le> 158 \<and>
         (of_char d :: nat) \<noteq> 151
      then c # char_of ((of_char d :: nat) + 32) # lower_latin rest
      else lower_char c # lower_latin (d # rest))"
| "lower_latin [c] = [lower_char c]"
| "lower_latin [] = []"

fun strip_front :: "char \<Rightarrow> char \<Rightarrow> string \<Rightarrow> string" where
  "strip_front a b (c # d # rest) =
     (if is_space c then strip_front a b (d # rest)
      else if c = a \<and> d = b then strip_front a b rest
      else c # d # rest)"
| "strip_front a b [c] = (if is_space c then [] else [c])"
| "strip_front a b [] = []"

definition latin_js :: js_strings where
  "latin_js =
     \<lparr>unicode_lower = lower_latin,
      unicode_trim = (\<lambda>s. rev (strip_front (CHR 0xA0) (CHR 0xC2)
                           (rev (strip_front (CHR 0xC2) (CHR 0xA0) s))))\<rparr>"

text \<open>A graphic of three layers, the first labelled \<open>Ecole\<close> with a capital E acute.\<close>

definition accent_svg :: svg_elem where
  "accent_svg =
     \<lparr>svg_node = 0, width_attr = None, height_attr = None, style_attr = None,
      groups = [layer 1 ([CHR 0xC3, CHR 0x89] @ ''cole''), layer 2 ''Plan'', layer 3 ''Note''],
      parsererror = False\<rparr>"

definition blank_container :: container where
  "blank_container =
     \<lparr>data_src = None, data_base = None, data_include = None, data_order = None,
      data_fragment_class = None, rsvgProcessed = False, inline_svg = None, kids = []\<rparr>"

definition start_state :: "container \<Rightarrow> state" where
  "start_state c =
     \<lparr>containers = (\<lambda>k. c), selected = [0], hidden = {}, visible = {},
      spans = (\<lambda>n. None), listeners = [], teardownFns = [], uniq_c = 0, console = [],
      next_node = 6, style_injected = False\<rparr>"

text \<open>A browser whose every request succeeds with the text \<open><svg\<close>, which the parser
  answers with an error document without groups.\<close>

definition broken_env :: env where
  "broken_env =
     \<lparr>fetch = (\<lambda>url. Inr \<lparr>res_ok = True, res_text = Inr ''<svg''\<rparr>),
      parseFromString = (\<lambda>text. \<lparr>svg_node = 0, width_attr = None, height_attr = None,
         style_attr = None, groups = [], parsererror = True\<rparr>),
      opt_fragmentClass = []\<rparr>"

text \<open>A browser whose every request is answered with a status that is not a success.\<close>

definition failing_env :: env where
  "failing_env =
     \<lparr>fetch = (\<lambda>url. Inr \<lparr>res_ok = False, res_text = Inr ''Not Found''\<rparr>),
      parseFromString = (\<lambda>text. sample_svg),
      opt_fragmentClass = []\<rparr>"

text \<open>An element \<open>.floating.debug\<close> inside a slide, before the first scan.\<close>

definition blank_floating :: floating where
  "blank_floating =
     \<lparr>in_section = True, grip_children = 0, hud_children = 0, hudInfo = False,
      copy_listeners = 0, closures = [], observers = 0, raf = [], processed = False,
      effects = []\<rparr>"

text \<open>No closure of the element holds a \<open>pointerup\<close> listener on the window: no drag
  is under way.\<close>

definition idle :: "floating \<Rightarrow> bool" where
  "idle el = (\<forall>cl\<in>set (closures el). \<not> win_up cl)"

section \<open>Facts about the partition\<close>

lemma partition_loop_filter:
  "partition_loop J bs gs (b, s) =
     (b @ filter (\<lambda>g. byName J g \<in> bs) gs, s @ filter (\<lambda>g. byName J g \<notin> bs) gs)"
  by (induction gs arbitrary: b s) auto

lemma mapByName_Some:
  "mapByName J ls n = Some g \<Longrightarrow> g \<in> set ls \<and> byName J g = n"
  unfolding mapByName_def by (auto dest!: map_of_SomeD)

lemma mapByName_None: "(mapByName J ls n = None) = (n \<notin> byName J ` set ls)"
  unfolding mapByName_def by (simp add: map_of_eq_None_iff image_image)

lemma lookups_Nil: "lookups J ls [] = []"
  by (simp add: lookups_def)

lemma lookups_Cons:
  "lookups J ls (n # incl) =
     (case mapByName J ls (toLowerCase J n) of
        None \<Rightarrow> lookups J ls incl
      | Some g \<Rightarrow> g # lookups J ls incl)"
  by (auto simp: lookups_def split: option.splits)

lemma lookups_names:
  "map (byName J) (lookups J ls incl) =
     filter (\<lambda>n. n \<in> byName J ` set ls) (map (toLowerCase J) incl)"
proof (induction incl)
  case Nil
  show ?case by (simp add: lookups_Nil)
next
  case (Cons n incl)
  show ?case
  proof (cases "mapByName J ls (toLowerCase J n)")
    case None
    then have "toLowerCase J n \<notin> byName J ` set ls" by (simp add: mapByName_None)
    with None Cons show ?thesis by (simp add: lookups_Cons)
  next
    case (Some g)
    then have "g \<in> set ls" "byName J g = toLowerCase J n"
      using mapByName_Some by blast+
    then have "toLowerCase J n \<in> byName J ` set ls" by force
    with Some Cons \<open>byName J g = toLowerCase J n\<close> show ?thesis by (simp add: lookups_Cons)
  qed
qed

lemma lookups_subset: "set (lookups J ls incl) \<subseteq> set ls"
  by (induction incl) (auto simp: lookups_Nil lookups_Cons split: option.splits dest: mapByName_Some)

lemma baseLayers_of_filter:
  "baseLayers_of J c svg = filter (\<lambda>g. byName J g \<in> baseSet J c) (findLayers svg)"
  unfolding baseLayers_of_def classify_def
  by (simp add: partition_loop_filter Let_def)

lemma stepLayers_of_cases:
  "stepLayers_of J c svg =
     (if toList J (data_include c) \<noteq> [] then lookups J (non_base J c svg) (toList J (data_include c))
      else if order_of J c = ''reverse'' then rev (non_base J c svg)
      else non_base J c svg)"
  unfolding stepLayers_of_def classify_def non_base_def
  by (simp add: partition_loop_filter Let_def)

lemma stepLayers_subset: "set (stepLayers_of J c svg) \<subseteq> set (non_base J c svg)"
  using lookups_subset by (auto simp: stepLayers_of_cases)

lemma order_rev: "data_order c = Some ''reverse'' \<Longrightarrow> order_of J c = ''reverse''"
  by (simp add: order_of_def or_else_def toLowerCase_def lower_char_def is_ascii_def)

lemma toList_None: "toList J None = []"
  by (simp add: toList_def or_else_def trim_def is_ascii_def)


lemma fold_showLayer: "fold showLayer ls s = s\<lparr>hidden := hidden s - g_node ` set ls\<rparr>"
  by (induction ls arbitrary: s) (simp_all add: showLayer_def Diff_insert2[symmetric])

lemma fold_hideLayer: "fold hideLayer ls s = s\<lparr>hidden := hidden s \<union> g_node ` set ls\<rparr>"
  by (induction ls arbitrary: s) (auto simp: hideLayer_def)

lemma upt_cons_helper: "n # [Suc n ..< Suc (n + len)] = [n ..< Suc (n + len)]"
  by (simp add: upt_conv_Cons del: upt_Suc)

lemma idx_helper: "Suc n \<le> m \<Longrightarrow> Suc (i + m - Suc n) = i + m - n"
  by arith

lemma mp_fst:
  "fst (make_placeholders k uid ef ls i s) = [next_node s ..< next_node s + length ls]"
  by (induction ls arbitrary: i s)
     (simp_all add: Let_def split_beta appendChild_def upt_cons_helper del: upt_Suc)

lemma mp_next_node:
  "next_node (snd (make_placeholders k uid ef ls i s)) = next_node s + length ls"
  by (induction ls arbitrary: i s) (simp_all add: Let_def split_beta appendChild_def)

lemma mp_frame:
  "hidden (snd (make_placeholders k uid ef ls i s)) = hidden s \<and>
   visible (snd (make_placeholders k uid ef ls i s)) = visible s \<and>
   listeners (snd (make_placeholders k uid ef ls i s)) = listeners s \<and>
   teardownFns (snd (make_placeholders k uid ef ls i s)) = teardownFns s \<and>
   uniq_c (snd (make_placeholders k uid ef ls i s)) = uniq_c s \<and>
   console (snd (make_placeholders k uid ef ls i s)) = console s \<and>
   selected (snd (make_placeholders k uid ef ls i s)) = selected s \<and>
   style_injected (snd (make_placeholders k uid ef ls i s)) = style_injected s"
  by (induction ls arbitrary: i s) (simp_all add: Let_def split_beta appendChild_def)

lemma mp_spans:
  "spans (snd (make_placeholders k uid ef ls i s)) m =
     (if next_node s \<le> m \<and> m < next_node s + length ls
      then Some (new_span uid ef (i + (m - next_node s)) (ls ! (m - next_node s)))
      else spans s m)"
proof (induction ls arbitrary: i s)
  case Nil
  show ?case by auto
next
  case (Cons l ls)
  show ?case
    by (auto simp: Let_def split_beta appendChild_def Cons nth_Cons' Suc_diff_le idx_helper)
qed

lemma mp_containers:
  "containers (snd (make_placeholders k uid ef ls i s)) j =
     (if j = k
      then (containers s k)\<lparr>kids := kids (containers s k) @ [next_node s ..< next_node s + length ls]\<rparr>
      else containers s j)"
proof (induction ls arbitrary: i s)
  case Nil
  show ?case by simp
next
  case (Cons l ls)
  show ?case
    by (simp add: Let_def split_beta appendChild_def Cons upt_cons_helper del: upt_Suc)
qed


lemma bc_fst: "fst (build_ctx J k svg fc s) = ctx_next J k svg s"
  by (simp add: build_ctx_def ctx_next_def uid_next_def Let_def split_beta uniqId_def
      deck_on_def fold_showLayer fold_hideLayer mp_fst)

lemma bc_hidden:
  "hidden (snd (build_ctx J k svg fc s)) =
     (hidden s - g_node ` set (baseLayers_of J (containers s k) svg))
       \<union> g_node ` set (stepLayers_of J (containers s k) svg)"
  by (simp add: build_ctx_def Let_def split_beta uniqId_def
      deck_on_def fold_showLayer fold_hideLayer mp_frame)

lemma bc_spans:
  "spans (snd (build_ctx J k svg fc s)) m =
     (if next_node s \<le> m \<and> m < next_node s + length (stepLayers_of J (containers s k) svg)
      then Some (new_span (uid_next s) (extraFrag_of (containers s k) fc) (m - next_node s)
                   (stepLayers_of J (containers s k) svg ! (m - next_node s)))
      else spans s m)"
  by (simp add: build_ctx_def Let_def split_beta uniqId_def uid_next_def
      deck_on_def fold_showLayer fold_hideLayer mp_spans)

lemma bc_containers:
  "containers (snd (build_ctx J k svg fc s)) j =
     (if j = k
      then (containers s k)\<lparr>kids := kids (containers s k) @
             [next_node s ..< next_node s + length (stepLayers_of J (containers s k) svg)]\<rparr>
      else containers s j)"
  by (simp add: build_ctx_def Let_def split_beta uniqId_def
      deck_on_def fold_showLayer fold_hideLayer mp_containers)

lemma bc_listeners:
  "listeners (snd (build_ctx J k svg fc s)) =
     listeners s @
       [(''fragmentshown'', OnFragmentShown (ctx_next J k svg s)),
        (''fragmenthidden'', OnFragmentHidden (ctx_next J k svg s)),
        (''slidechanged'', OnSlideChanged (ctx_next J k svg s))]"
  by (simp add: build_ctx_def ctx_next_def uid_next_def Let_def split_beta uniqId_def
      deck_on_def fold_showLayer fold_hideLayer mp_frame mp_fst)

lemma bc_teardownFns:
  "teardownFns (snd (build_ctx J k svg fc s)) = teardownFns s @ [ctx_next J k svg s]"
  by (simp add: build_ctx_def ctx_next_def uid_next_def Let_def split_beta uniqId_def
      deck_on_def fold_showLayer fold_hideLayer mp_frame mp_fst)

lemma bc_misc:
  "visible (snd (build_ctx J k svg fc s)) = visible s \<and>
   console (snd (build_ctx J k svg fc s)) = console s \<and>
   selected (snd (build_ctx J k svg fc s)) = selected s \<and>
   style_injected (snd (build_ctx J k svg fc s)) = style_injected s \<and>
   uniq_c (snd (build_ctx J k svg fc s)) = Suc (uniq_c s) \<and>
   next_node (snd (build_ctx J k svg fc s)) =
     next_node s + length (stepLayers_of J (containers s k) svg)"
  by (simp add: build_ctx_def Let_def split_beta uniqId_def
      deck_on_def fold_showLayer fold_hideLayer mp_frame mp_next_node)

lemma rsvgLayer_of_hidden [simp]: "rsvgLayer_of (s\<lparr>hidden := H\<rparr>) p = rsvgLayer_of s p"
  by (simp add: rsvgLayer_of_def)

lemma uid_of_hidden [simp]: "uid_of (s\<lparr>hidden := H\<rparr>) p = uid_of s p"
  by (simp add: uid_of_def)

lemma sync_loop_frame:
  "\<exists>H. snd (forEach sync_body phs s) = s\<lparr>hidden := H\<rparr> \<and> H \<subseteq> hidden s \<and>
       (\<forall>m. (\<forall>p\<in>set phs. \<forall>l. rsvgLayer_of s p = Some l \<longrightarrow> g_node l \<noteq> m) \<longrightarrow>
            (m \<in> H) = (m \<in> hidden s))"
proof (induction phs arbitrary: s)
  case Nil
  show ?case by (rule exI[of _ "hidden s"]) simp
next
  case (Cons p phs)
  obtain e s1 where b: "sync_body p s = (e, s1)" by (cases "sync_body p s")
  have s1: "\<exists>H1. s1 = s\<lparr>hidden := H1\<rparr> \<and> H1 \<subseteq> hidden s \<and>
              (\<forall>m. (\<forall>l. rsvgLayer_of s p = Some l \<longrightarrow> g_node l \<noteq> m) \<longrightarrow> (m \<in> H1) = (m \<in> hidden s))"
  proof (cases "p \<in> visible s")
    case False
    with b have "s1 = s" by (simp add: sync_body_def)
    then show ?thesis by (intro exI[of _ "hidden s"]) simp
  next
    case True
    show ?thesis
    proof (cases "rsvgLayer_of s p")
      case None
      with b True have "s1 = s" by (simp add: sync_body_def showLayer_ref_def)
      then show ?thesis by (intro exI[of _ "hidden s"]) simp
    next
      case (Some l)
      with b True have "s1 = s\<lparr>hidden := hidden s - {g_node l}\<rparr>"
        by (simp add: sync_body_def showLayer_ref_def showLayer_def)
      with Some show ?thesis by (intro exI[of _ "hidden s - {g_node l}"]) auto
    qed
  qed
  then obtain H1 where H1: "s1 = s\<lparr>hidden := H1\<rparr>" "H1 \<subseteq> hidden s"
    "\<forall>m. (\<forall>l. rsvgLayer_of s p = Some l \<longrightarrow> g_node l \<noteq> m) \<longrightarrow> (m \<in> H1) = (m \<in> hidden s)"
    by blast
  show ?case
  proof (cases e)
    case (Some err)
    with b have "snd (forEach sync_body (p # phs) s) = s1" by simp
    with H1 show ?thesis by (intro exI[of _ H1]) auto
  next
    case None
    with b have eq: "forEach sync_body (p # phs) s = forEach sync_body phs s1" by simp
    from Cons.IH[of s1] obtain H where H: "snd (forEach sync_body phs s1) = s1\<lparr>hidden := H\<rparr>"
      "H \<subseteq> hidden s1"
      "\<forall>m. (\<forall>p\<in>set phs. \<forall>l. rsvgLayer_of s1 p = Some l \<longrightarrow> g_node l \<noteq> m) \<longrightarrow>
            (m \<in> H) = (m \<in> hidden s1)"
      by blast
    have "snd (forEach sync_body (p # phs) s) = s\<lparr>hidden := H\<rparr>"
      using eq H(1) H1(1) by simp
    moreover have "H \<subseteq> hidden s" using H(2) H1(1,2) by auto
    moreover have "\<forall>m. (\<forall>q\<in>set (p # phs). \<forall>l. rsvgLayer_of s q = Some l \<longrightarrow> g_node l \<noteq> m) \<longrightarrow>
            (m \<in> H) = (m \<in> hidden s)"
      using H(3) H1(1,3) by simp
    ultimately show ?thesis by blast
  qed
qed

lemma sync_loop_ok:
  "\<forall>p\<in>set phs. rsvgLayer_of s p \<noteq> None \<Longrightarrow> fst (forEach sync_body phs s) = None"
proof (induction phs arbitrary: s)
  case Nil
  show ?case by simp
next
  case (Cons p phs)
  then obtain l where l: "rsvgLayer_of s p = Some l" by auto
  have "sync_body p s = (None, if p \<in> visible s then showLayer l s else s)"
    by (simp add: sync_body_def showLayer_ref_def l)
  moreover have "\<forall>q\<in>set phs. rsvgLayer_of (if p \<in> visible s then showLayer l s else s) q \<noteq> None"
    using Cons.prems by (simp add: showLayer_def)
  ultimately show ?case using Cons.IH by simp
qed

lemma sync_frame:
  "\<exists>H. snd (syncFromVisibleFragments cx s) = s\<lparr>hidden := H\<rparr> \<and>
       H \<subseteq> hidden s \<union> g_node ` set (ctx_stepLayers cx) \<and>
       (\<forall>m. m \<notin> g_node ` set (ctx_stepLayers cx) \<longrightarrow>
            (\<forall>p\<in>set (ctx_placeholders cx). \<forall>l. rsvgLayer_of s p = Some l \<longrightarrow> g_node l \<noteq> m) \<longrightarrow>
            (m \<in> H) = (m \<in> hidden s))"
proof -
  let ?s1 = "s\<lparr>hidden := hidden s \<union> g_node ` set (ctx_stepLayers cx)\<rparr>"
  from sync_loop_frame[of "ctx_placeholders cx" ?s1]
  obtain H where H: "snd (forEach sync_body (ctx_placeholders cx) ?s1) = ?s1\<lparr>hidden := H\<rparr>"
    "H \<subseteq> hidden ?s1"
    "\<forall>m. (\<forall>p\<in>set (ctx_placeholders cx). \<forall>l. rsvgLayer_of ?s1 p = Some l \<longrightarrow> g_node l \<noteq> m) \<longrightarrow>
         (m \<in> H) = (m \<in> hidden ?s1)"
    by blast
  have "snd (syncFromVisibleFragments cx s) = s\<lparr>hidden := H\<rparr>"
    using H(1) by (simp add: syncFromVisibleFragments_def fold_hideLayer)
  moreover have "H \<subseteq> hidden s \<union> g_node ` set (ctx_stepLayers cx)" using H(2) by simp
  moreover have "\<forall>m. m \<notin> g_node ` set (ctx_stepLayers cx) \<longrightarrow>
            (\<forall>p\<in>set (ctx_placeholders cx). \<forall>l. rsvgLayer_of s p = Some l \<longrightarrow> g_node l \<noteq> m) \<longrightarrow>
            (m \<in> H) = (m \<in> hidden s)"
    using H(3) by simp
  ultimately show ?thesis by blast
qed

lemma bc_rsvgLayer:
  "i < length (stepLayers_of J (containers s k) svg) \<Longrightarrow>
   rsvgLayer_of (snd (build_ctx J k svg fc s)) (next_node s + i) =
     Some (stepLayers_of J (containers s k) svg ! i)"
  by (simp add: rsvgLayer_of_def bc_spans new_span_def)

lemma bc_uid:
  "i < length (stepLayers_of J (containers s k) svg) \<Longrightarrow>
   uid_of (snd (build_ctx J k svg fc s)) (next_node s + i) = Some (uid_next s)"
  by (simp add: uid_of_def bc_spans new_span_def)

lemma bc_placeholders_bound:
  assumes "p \<in> set (ctx_placeholders (ctx_next J k svg s))"
  shows "\<exists>l\<in>set (stepLayers_of J (containers s k) svg).
           rsvgLayer_of (snd (build_ctx J k svg fc s)) p = Some l"
proof -
  from assms have "next_node s \<le> p" "p < next_node s + length (stepLayers_of J (containers s k) svg)"
    by (auto simp: ctx_next_def)
  then have i: "p = next_node s + (p - next_node s)"
    "p - next_node s < length (stepLayers_of J (containers s k) svg)"
    by arith+
  from bc_rsvgLayer[OF i(2), of fc] i(1)
  have "rsvgLayer_of (snd (build_ctx J k svg fc s)) p =
          Some (stepLayers_of J (containers s k) svg ! (p - next_node s))"
    by simp
  with i(2) show ?thesis by simp
qed

lemma buildSteps_eq:
  "buildSteps J k svg fc s =
     syncFromVisibleFragments (ctx_next J k svg s) (snd (build_ctx J k svg fc s))"
  by (simp add: buildSteps_def split_beta bc_fst)

lemma rsvgLayer_of_hidden_eq:
  "rsvgLayer_of (s\<lparr>hidden := H\<rparr>) = rsvgLayer_of s"
  by (simp add: fun_eq_iff)

lemma buildSteps_ok: "fst (buildSteps J k svg fc s) = None"
proof -
  have "\<forall>p\<in>set (ctx_placeholders (ctx_next J k svg s)).
          rsvgLayer_of (fold hideLayer (ctx_stepLayers (ctx_next J k svg s)) (snd (build_ctx J k svg fc s))) p \<noteq> None"
    using bc_placeholders_bound[of _ J k svg s fc] by (fastforce simp: fold_hideLayer)
  then show ?thesis
    by (simp add: buildSteps_eq syncFromVisibleFragments_def sync_loop_ok)
qed

lemma buildSteps_frame:
  "\<exists>H. snd (buildSteps J k svg fc s) = (snd (build_ctx J k svg fc s))\<lparr>hidden := H\<rparr> \<and>
       H \<subseteq> hidden (snd (build_ctx J k svg fc s)) \<and>
       (\<forall>m. m \<notin> g_node ` set (stepLayers_of J (containers s k) svg) \<longrightarrow>
            (m \<in> H) = (m \<in> hidden (snd (build_ctx J k svg fc s))))"
proof -
  let ?b = "snd (build_ctx J k svg fc s)" and ?cx = "ctx_next J k svg s"
  from sync_frame[of ?cx ?b] obtain H where H:
    "snd (syncFromVisibleFragments ?cx ?b) = ?b\<lparr>hidden := H\<rparr>"
    "H \<subseteq> hidden ?b \<union> g_node ` set (ctx_stepLayers ?cx)"
    "\<forall>m. m \<notin> g_node ` set (ctx_stepLayers ?cx) \<longrightarrow>
         (\<forall>p\<in>set (ctx_placeholders ?cx). \<forall>l. rsvgLayer_of ?b p = Some l \<longrightarrow> g_node l \<noteq> m) \<longrightarrow>
         (m \<in> H) = (m \<in> hidden ?b)"
    by blast
  have steps: "ctx_stepLayers ?cx = stepLayers_of J (containers s k) svg"
    by (simp add: ctx_next_def)
  have "H \<subseteq> hidden ?b" using H(2) by (auto simp: steps bc_hidden)
  moreover have "\<forall>m. m \<notin> g_node ` set (stepLayers_of J (containers s k) svg) \<longrightarrow>
            (m \<in> H) = (m \<in> hidden ?b)"
  proof (intro allI impI)
    fix m assume m: "m \<notin> g_node ` set (stepLayers_of J (containers s k) svg)"
    have "\<forall>p\<in>set (ctx_placeholders ?cx). \<forall>l. rsvgLayer_of ?b p = Some l \<longrightarrow> g_node l \<noteq> m"
      using bc_placeholders_bound[of _ J k svg s fc] m by fastforce
    with H(3) m show "(m \<in> H) = (m \<in> hidden ?b)" by (simp add: steps)
  qed
  ultimately show ?thesis using H(1) by (auto simp: buildSteps_eq)
qed

section \<open>What a handler can change\<close>

lemma bound_layers_hidden [simp]: "bound_layers (s\<lparr>hidden := H\<rparr>) = bound_layers s"
  by (simp add: bound_layers_def)

lemma not_bound: "m \<notin> bound_layers s \<Longrightarrow> rsvgLayer_of s p = Some l \<Longrightarrow> g_node l \<noteq> m"
  by (auto simp: bound_layers_def)

lemma frag_frame_bound:
  assumes "\<forall>m. (\<forall>ph l. f = Some ph \<longrightarrow> rsvgLayer_of s ph = Some l \<longrightarrow> g_node l \<noteq> m) \<longrightarrow>
              (m \<in> H) = (m \<in> hidden s)"
  shows "\<forall>m. m \<notin> bound_layers s \<longrightarrow> (m \<in> H) = (m \<in> hidden s)"
proof (intro allI impI)
  fix m assume "m \<notin> bound_layers s"
  then have "\<forall>ph l. f = Some ph \<longrightarrow> rsvgLayer_of s ph = Some l \<longrightarrow> g_node l \<noteq> m"
    using not_bound by blast
  with assms show "(m \<in> H) = (m \<in> hidden s)" by simp
qed

lemma fold_hidden_frame:
  assumes step: "\<And>x s. x \<in> set xs \<Longrightarrow> Q s \<Longrightarrow>
            \<exists>H. F x s = s\<lparr>hidden := H\<rparr> \<and> (\<forall>m. P x m \<longrightarrow> (m \<in> H) = (m \<in> hidden s))"
      and keep: "\<And>s H. Q s \<Longrightarrow> Q (s\<lparr>hidden := H\<rparr>)"
      and "Q s"
  shows "\<exists>H. fold F xs s = s\<lparr>hidden := H\<rparr> \<and>
             (\<forall>m. (\<forall>x\<in>set xs. P x m) \<longrightarrow> (m \<in> H) = (m \<in> hidden s))"
  using assms
proof (induction xs arbitrary: s)
  case Nil
  show ?case by (rule exI[of _ "hidden s"]) simp
next
  case (Cons x xs)
  from Cons.prems(1)[of x s] Cons.prems(3)
  obtain H1 where H1: "F x s = s\<lparr>hidden := H1\<rparr>" "\<forall>m. P x m \<longrightarrow> (m \<in> H1) = (m \<in> hidden s)"
    by auto
  have Q1: "Q (s\<lparr>hidden := H1\<rparr>)" using Cons.prems(2,3) by blast
  from Cons.IH[of "s\<lparr>hidden := H1\<rparr>"] Cons.prems(1,2) Q1
  obtain H where H: "fold F xs (s\<lparr>hidden := H1\<rparr>) = s\<lparr>hidden := H1\<rparr>\<lparr>hidden := H\<rparr>"
    "\<forall>m. (\<forall>x\<in>set xs. P x m) \<longrightarrow> (m \<in> H) = (m \<in> hidden (s\<lparr>hidden := H1\<rparr>))"
    by (metis list.set_intros(2))
  have "fold F (x # xs) s = s\<lparr>hidden := H\<rparr>" using H1(1) H(1) by simp
  moreover have "\<forall>m. (\<forall>y\<in>set (x # xs). P y m) \<longrightarrow> (m \<in> H) = (m \<in> hidden s)"
    using H1(2) H(2) by simp
  ultimately show ?case by blast
qed

lemma showLayer_ref_frame:
  "\<exists>H. snd (showLayer_ref r s) = s\<lparr>hidden := H\<rparr> \<and>
       (\<forall>m. (\<forall>l. r = Some l \<longrightarrow> g_node l \<noteq> m) \<longrightarrow> (m \<in> H) = (m \<in> hidden s))"
proof (cases r)
  case None
  then show ?thesis by (intro exI[of _ "hidden s"]) (simp add: showLayer_ref_def)
next
  case (Some l)
  then show ?thesis
    by (intro exI[of _ "hidden s - {g_node l}"]) (auto simp: showLayer_ref_def showLayer_def)
qed

lemma hideLayer_ref_frame:
  "\<exists>H. snd (hideLayer_ref r s) = s\<lparr>hidden := H\<rparr> \<and>
       (\<forall>m. (\<forall>l. r = Some l \<longrightarrow> g_node l \<noteq> m) \<longrightarrow> (m \<in> H) = (m \<in> hidden s))"
proof (cases r)
  case None
  then show ?thesis by (intro exI[of _ "hidden s"]) (simp add: hideLayer_ref_def)
next
  case (Some l)
  then show ?thesis
    by (intro exI[of _ "insert (g_node l) (hidden s)"]) (auto simp: hideLayer_ref_def hideLayer_def)
qed

lemma onFragmentShown_frame:
  "\<exists>H. snd (onFragmentShown cx f s) = s\<lparr>hidden := H\<rparr> \<and>
       (\<forall>m. (\<forall>ph l. f = Some ph \<longrightarrow> rsvgLayer_of s ph = Some l \<longrightarrow> g_node l \<noteq> m) \<longrightarrow>
            (m \<in> H) = (m \<in> hidden s))"
proof (cases f)
  case None
  then show ?thesis by (intro exI[of _ "hidden s"]) (simp add: onFragmentShown_def)
next
  case (Some ph)
  show ?thesis
  proof (cases "uid_of s ph = Some (ctx_uid cx)")
    case True
    with Some showLayer_ref_frame[of "rsvgLayer_of s ph" s] show ?thesis
      by (simp add: onFragmentShown_def)
  next
    case False
    with Some show ?thesis by (intro exI[of _ "hidden s"]) (simp add: onFragmentShown_def)
  qed
qed

lemma onFragmentHidden_frame:
  "\<exists>H. snd (onFragmentHidden cx f s) = s\<lparr>hidden := H\<rparr> \<and>
       (\<forall>m. (\<forall>ph l. f = Some ph \<longrightarrow> rsvgLayer_of s ph = Some l \<longrightarrow> g_node l \<noteq> m) \<longrightarrow>
            (m \<in> H) = (m \<in> hidden s))"
proof (cases f)
  case None
  then show ?thesis by (intro exI[of _ "hidden s"]) (simp add: onFragmentHidden_def)
next
  case (Some ph)
  show ?thesis
  proof (cases "uid_of s ph = Some (ctx_uid cx)")
    case True
    with Some hideLayer_ref_frame[of "rsvgLayer_of s ph" s] show ?thesis
      by (simp add: onFragmentHidden_def)
  next
    case False
    with Some show ?thesis by (intro exI[of _ "hidden s"]) (simp add: onFragmentHidden_def)
  qed
qed

lemma onSlideChanged_frame:
  "\<exists>H. snd (onSlideChanged cx cur s) = s\<lparr>hidden := H\<rparr> \<and>
       (\<forall>m. m \<notin> g_node ` set (ctx_stepLayers cx) \<and> m \<notin> bound_layers s \<longrightarrow>
            (m \<in> H) = (m \<in> hidden s))"
proof (cases "\<exists>current. cur = Some current \<and> ctx_container cx \<in> set current")
  case False
  then have "snd (onSlideChanged cx cur s) = s"
    by (cases cur) (auto simp: onSlideChanged_def)
  then show ?thesis by (intro exI[of _ "hidden s"]) simp
next
  case True
  then have eq: "onSlideChanged cx cur s = syncFromVisibleFragments cx s"
    by (auto simp: onSlideChanged_def)
  from sync_frame[of cx s] obtain H where H:
    "snd (syncFromVisibleFragments cx s) = s\<lparr>hidden := H\<rparr>"
    "\<forall>m. m \<notin> g_node ` set (ctx_stepLayers cx) \<longrightarrow>
         (\<forall>p\<in>set (ctx_placeholders cx). \<forall>l. rsvgLayer_of s p = Some l \<longrightarrow> g_node l \<noteq> m) \<longrightarrow>
         (m \<in> H) = (m \<in> hidden s)"
    by blast
  have "\<forall>m. m \<notin> g_node ` set (ctx_stepLayers cx) \<and> m \<notin> bound_layers s \<longrightarrow>
            (m \<in> H) = (m \<in> hidden s)"
    using H(2) not_bound by blast
  with H(1) eq show ?thesis by auto
qed

lemma call_handler_frame:
  "\<exists>H. snd (call_handler h ev s) = s\<lparr>hidden := H\<rparr> \<and>
       (\<forall>m. m \<notin> g_node ` set (ctx_stepLayers (handler_ctx h)) \<and> m \<notin> bound_layers s \<longrightarrow>
            (m \<in> H) = (m \<in> hidden s))"
proof (cases h)
  case (OnFragmentShown cx)
  show ?thesis
  proof (cases ev)
    case (Fragmentshown f)
    from onFragmentShown_frame[of cx f s] obtain H where
      "snd (onFragmentShown cx f s) = s\<lparr>hidden := H\<rparr>"
      "\<forall>m. (\<forall>ph l. f = Some ph \<longrightarrow> rsvgLayer_of s ph = Some l \<longrightarrow> g_node l \<noteq> m) \<longrightarrow>
            (m \<in> H) = (m \<in> hidden s)" by blast
    moreover from this(2) have "\<forall>m. m \<notin> bound_layers s \<longrightarrow> (m \<in> H) = (m \<in> hidden s)"
      by (rule frag_frame_bound)
    ultimately show ?thesis using OnFragmentShown Fragmentshown
      by (intro exI[of _ H]) simp
  qed (use OnFragmentShown in \<open>auto intro!: exI[of _ "hidden s"]\<close>)
next
  case (OnFragmentHidden cx)
  show ?thesis
  proof (cases ev)
    case (Fragmenthidden f)
    from onFragmentHidden_frame[of cx f s] obtain H where
      "snd (onFragmentHidden cx f s) = s\<lparr>hidden := H\<rparr>"
      "\<forall>m. (\<forall>ph l. f = Some ph \<longrightarrow> rsvgLayer_of s ph = Some l \<longrightarrow> g_node l \<noteq> m) \<longrightarrow>
            (m \<in> H) = (m \<in> hidden s)" by blast
    moreover from this(2) have "\<forall>m. m \<notin> bound_layers s \<longrightarrow> (m \<in> H) = (m \<in> hidden s)"
      by (rule frag_frame_bound)
    ultimately show ?thesis using OnFragmentHidden Fragmenthidden
      by (intro exI[of _ H]) simp
  qed (use OnFragmentHidden in \<open>auto intro!: exI[of _ "hidden s"]\<close>)
next
  case (OnSlideChanged cx)
  show ?thesis
  proof (cases ev)
    case (Slidechanged cur)
    with OnSlideChanged onSlideChanged_frame[of cx cur s] show ?thesis by simp
  qed (use OnSlideChanged in \<open>auto intro!: exI[of _ "hidden s"]\<close>)
qed

lemma emit_fold: "emit ev s = fold (emit_body ev) (listeners s) s"
  by (simp add: emit_def)

lemma emit_body_frame:
  "\<exists>H. emit_body ev x s = s\<lparr>hidden := H\<rparr> \<and>
       (\<forall>m. m \<notin> g_node ` set (ctx_stepLayers (handler_ctx (snd x))) \<and> m \<notin> bound_layers s \<longrightarrow>
            (m \<in> H) = (m \<in> hidden s))"
proof (cases x)
  case (Pair nm h)
  show ?thesis
  proof (cases "nm = event_name ev")
    case True
    with Pair call_handler_frame[of h ev s] show ?thesis by (simp add: emit_body_def)
  next
    case False
    with Pair show ?thesis by (intro exI[of _ "hidden s"]) (simp add: emit_body_def)
  qed
qed

lemma emit_frame:
  "\<exists>H. emit ev s = s\<lparr>hidden := H\<rparr> \<and> (\<forall>m. m \<notin> reach s \<longrightarrow> (m \<in> H) = (m \<in> hidden s))"
proof -
  have "\<exists>H. fold (emit_body ev) (listeners s) s = s\<lparr>hidden := H\<rparr> \<and>
          (\<forall>m. (\<forall>x\<in>set (listeners s).
                  m \<notin> g_node ` set (ctx_stepLayers (handler_ctx (snd x))) \<and> m \<notin> bound_layers s) \<longrightarrow>
               (m \<in> H) = (m \<in> hidden s))"
  proof (rule fold_hidden_frame[where Q = "\<lambda>s'. bound_layers s' = bound_layers s"])
    fix x s' assume "bound_layers s' = bound_layers s"
    with emit_body_frame[of ev x s']
    show "\<exists>H. emit_body ev x s' = s'\<lparr>hidden := H\<rparr> \<and>
            (\<forall>m. m \<notin> g_node ` set (ctx_stepLayers (handler_ctx (snd x))) \<and> m \<notin> bound_layers s \<longrightarrow>
                 (m \<in> H) = (m \<in> hidden s'))"
      by simp
  qed simp_all
  then obtain H where H: "emit ev s = s\<lparr>hidden := H\<rparr>"
    "\<forall>m. (\<forall>x\<in>set (listeners s).
                  m \<notin> g_node ` set (ctx_stepLayers (handler_ctx (snd x))) \<and> m \<notin> bound_layers s) \<longrightarrow>
               (m \<in> H) = (m \<in> hidden s)"
    by (auto simp: emit_fold)
  have "\<forall>m. m \<notin> reach s \<longrightarrow> (m \<in> H) = (m \<in> hidden s)"
  proof (intro allI impI)
    fix m assume "m \<notin> reach s"
    then have "\<forall>x\<in>set (listeners s).
                  m \<notin> g_node ` set (ctx_stepLayers (handler_ctx (snd x))) \<and> m \<notin> bound_layers s"
      by (auto simp: reach_def)
    with H(2) show "(m \<in> H) = (m \<in> hidden s)" by blast
  qed
  with H(1) show ?thesis by blast
qed

lemma call_handler_fragment_frame:
  assumes "ev = Fragmentshown f \<or> ev = Fragmenthidden f"
  shows "\<exists>H. snd (call_handler h ev s) = s\<lparr>hidden := H\<rparr> \<and>
       (\<forall>m. (\<forall>ph l. f = Some ph \<longrightarrow> rsvgLayer_of s ph = Some l \<longrightarrow> g_node l \<noteq> m) \<longrightarrow>
            (m \<in> H) = (m \<in> hidden s))"
proof (cases h)
  case (OnFragmentShown cx)
  from assms show ?thesis
  proof
    assume "ev = Fragmentshown f"
    with OnFragmentShown onFragmentShown_frame[of cx f s] show ?thesis by simp
  next
    assume "ev = Fragmenthidden f"
    with OnFragmentShown show ?thesis by (intro exI[of _ "hidden s"]) simp
  qed
next
  case (OnFragmentHidden cx)
  from assms show ?thesis
  proof
    assume "ev = Fragmenthidden f"
    with OnFragmentHidden onFragmentHidden_frame[of cx f s] show ?thesis by simp
  next
    assume "ev = Fragmentshown f"
    with OnFragmentHidden show ?thesis by (intro exI[of _ "hidden s"]) simp
  qed
next
  case (OnSlideChanged cx)
  with assms show ?thesis by (intro exI[of _ "hidden s"]) auto
qed

lemma emit_fragment_frame:
  assumes ev: "ev = Fragmentshown f \<or> ev = Fragmenthidden f"
  shows "\<exists>H. emit ev s = s\<lparr>hidden := H\<rparr> \<and>
       (\<forall>m. (\<forall>ph l. f = Some ph \<longrightarrow> rsvgLayer_of s ph = Some l \<longrightarrow> g_node l \<noteq> m) \<longrightarrow>
            (m \<in> H) = (m \<in> hidden s))"
proof -
  have "\<exists>H. fold (emit_body ev) (listeners s) s = s\<lparr>hidden := H\<rparr> \<and>
          (\<forall>m. (\<forall>x\<in>set (listeners s).
                  (\<forall>ph l. f = Some ph \<longrightarrow> rsvgLayer_of s ph = Some l \<longrightarrow> g_node l \<noteq> m)) \<longrightarrow>
               (m \<in> H) = (m \<in> hidden s))"
  proof (rule fold_hidden_frame[where Q = "\<lambda>s'. rsvgLayer_of s' = rsvgLayer_of s"])
    fix x :: "string \<times> handler" and s' assume q: "rsvgLayer_of s' = rsvgLayer_of s"
    obtain nm h where x: "x = (nm, h)" by (cases x)
    show "\<exists>H. emit_body ev x s' = s'\<lparr>hidden := H\<rparr> \<and>
            (\<forall>m. (\<forall>ph l. f = Some ph \<longrightarrow> rsvgLayer_of s ph = Some l \<longrightarrow> g_node l \<noteq> m) \<longrightarrow>
                 (m \<in> H) = (m \<in> hidden s'))"
    proof (cases "nm = event_name ev")
      case True
      with x q call_handler_fragment_frame[OF ev, of h s'] show ?thesis
        by (simp add: emit_body_def)
    next
      case False
      with x show ?thesis by (intro exI[of _ "hidden s'"]) (simp add: emit_body_def)
    qed
  qed (simp_all add: rsvgLayer_of_hidden_eq)
  then obtain H where H: "emit ev s = s\<lparr>hidden := H\<rparr>"
    "\<forall>m. (\<forall>x\<in>set (listeners s).
                  (\<forall>ph l. f = Some ph \<longrightarrow> rsvgLayer_of s ph = Some l \<longrightarrow> g_node l \<noteq> m)) \<longrightarrow>
               (m \<in> H) = (m \<in> hidden s)"
    by (auto simp: emit_fold)
  from H(2) have "\<forall>m. (\<forall>ph l. f = Some ph \<longrightarrow> rsvgLayer_of s ph = Some l \<longrightarrow> g_node l \<noteq> m) \<longrightarrow>
            (m \<in> H) = (m \<in> hidden s)" by blast
  with H(1) show ?thesis by blast
qed

lemma filter_removeAll:
  "filter (\<lambda>n. n \<notin> set ps) (removeAll p xs) = filter (\<lambda>n. n \<noteq> p \<and> n \<notin> set ps) xs"
  by (induction xs) auto

lemma fold_remove_node_containers:
  "containers (fold remove_node ps s) j =
     (containers s j)\<lparr>kids := filter (\<lambda>n. n \<notin> set ps) (kids (containers s j))\<rparr>"
  by (induction ps arbitrary: s) (simp_all add: remove_node_def filter_removeAll)

lemma fold_remove_node_frame:
  "\<exists>C. fold remove_node ps s = s\<lparr>containers := C\<rparr>"
proof (induction ps arbitrary: s)
  case Nil
  show ?case by (rule exI[of _ "containers s"]) simp
next
  case (Cons p ps)
  from Cons[of "remove_node p s"] show ?case by (auto simp: remove_node_def)
qed

section \<open>Teardown and the life of a container\<close>

lemma teardown_frame:
  "\<exists>L C H. teardown cx s = s\<lparr>containers := C, hidden := H, listeners := L\<rparr> \<and>
     set L = set (listeners s) - subscriptions cx \<and>
     (\<forall>j. C j = (containers s j)\<lparr>kids := filter (\<lambda>n. n \<notin> set (ctx_placeholders cx))
                                             (kids (containers s j))\<rparr>) \<and>
     H = hidden s - g_node ` set (ctx_stepLayers cx)"
proof -
  let ?s3 = "s\<lparr>listeners := removeAll (''slidechanged'', OnSlideChanged cx)
                (removeAll (''fragmenthidden'', OnFragmentHidden cx)
                  (removeAll (''fragmentshown'', OnFragmentShown cx) (listeners s)))\<rparr>"
  obtain C where C: "fold remove_node (ctx_placeholders cx) ?s3 = ?s3\<lparr>containers := C\<rparr>"
    using fold_remove_node_frame by blast
  have Cj: "\<forall>j. C j = (containers s j)\<lparr>kids := filter (\<lambda>n. n \<notin> set (ctx_placeholders cx))
                                             (kids (containers s j))\<rparr>"
  proof
    fix j
    have "containers (fold remove_node (ctx_placeholders cx) ?s3) j = C j" using C by simp
    then show "C j = (containers s j)\<lparr>kids := filter (\<lambda>n. n \<notin> set (ctx_placeholders cx))
                                             (kids (containers s j))\<rparr>"
      by (simp add: fold_remove_node_containers)
  qed
  have "teardown cx s = s\<lparr>containers := C, hidden := hidden s - g_node ` set (ctx_stepLayers cx),
          listeners := removeAll (''slidechanged'', OnSlideChanged cx)
                (removeAll (''fragmenthidden'', OnFragmentHidden cx)
                  (removeAll (''fragmentshown'', OnFragmentShown cx) (listeners s)))\<rparr>"
    by (simp add: teardown_def deck_off_def Let_def C fold_showLayer)
  moreover have "set (removeAll (''slidechanged'', OnSlideChanged cx)
                (removeAll (''fragmenthidden'', OnFragmentHidden cx)
                  (removeAll (''fragmentshown'', OnFragmentShown cx) (listeners s)))) =
        set (listeners s) - subscriptions cx"
    by (auto simp: subscriptions_def)
  ultimately show ?thesis using Cj by blast
qed

lemma fold_teardown_frame:
  "\<exists>L C H. fold teardown cxs s = s\<lparr>containers := C, hidden := H, listeners := L\<rparr> \<and>
     set L = set (listeners s) - (\<Union>cx\<in>set cxs. subscriptions cx) \<and>
     (\<forall>j. C j = (containers s j)\<lparr>kids :=
              filter (\<lambda>n. n \<notin> (\<Union>cx\<in>set cxs. set (ctx_placeholders cx))) (kids (containers s j))\<rparr>) \<and>
     H = hidden s - (\<Union>cx\<in>set cxs. g_node ` set (ctx_stepLayers cx))"
proof (induction cxs arbitrary: s)
  case Nil
  show ?case
    by (intro exI[of _ "listeners s"] exI[of _ "containers s"] exI[of _ "hidden s"]) simp
next
  case (Cons cx cxs)
  from teardown_frame[of cx s] obtain L1 C1 H1 where
    t1: "teardown cx s = s\<lparr>containers := C1, hidden := H1, listeners := L1\<rparr>"
    and L1: "set L1 = set (listeners s) - subscriptions cx"
    and C1: "\<forall>j. C1 j = (containers s j)\<lparr>kids := filter (\<lambda>n. n \<notin> set (ctx_placeholders cx))
                                             (kids (containers s j))\<rparr>"
    and H1: "H1 = hidden s - g_node ` set (ctx_stepLayers cx)"
    by blast
  let ?s1 = "s\<lparr>containers := C1, hidden := H1, listeners := L1\<rparr>"
  from Cons[of ?s1] obtain L C H where
    t: "fold teardown cxs ?s1 = ?s1\<lparr>containers := C, hidden := H, listeners := L\<rparr>"
    and L: "set L = set (listeners ?s1) - (\<Union>cx\<in>set cxs. subscriptions cx)"
    and C: "\<forall>j. C j = (containers ?s1 j)\<lparr>kids :=
              filter (\<lambda>n. n \<notin> (\<Union>cx\<in>set cxs. set (ctx_placeholders cx))) (kids (containers ?s1 j))\<rparr>"
    and H: "H = hidden ?s1 - (\<Union>cx\<in>set cxs. g_node ` set (ctx_stepLayers cx))"
    by blast
  have "fold teardown (cx # cxs) s = s\<lparr>containers := C, hidden := H, listeners := L\<rparr>"
    using t1 t by simp
  moreover have "set L = set (listeners s) - (\<Union>cx\<in>set (cx # cxs). subscriptions cx)"
    using L L1 by auto
  moreover have "\<forall>j. C j = (containers s j)\<lparr>kids :=
              filter (\<lambda>n. n \<notin> (\<Union>cx\<in>set (cx # cxs). set (ctx_placeholders cx))) (kids (containers s j))\<rparr>"
    using C C1 by (simp add: conj_commute)
  moreover have "H = hidden s - (\<Union>cx\<in>set (cx # cxs). g_node ` set (ctx_stepLayers cx))"
    using H H1 by auto
  ultimately show ?case by blast
qed

lemma destroy_frame:
  "\<exists>L C H. destroy s = s\<lparr>containers := C, hidden := H, listeners := L, teardownFns := []\<rparr> \<and>
     set L = set (listeners s) - (\<Union>cx\<in>set (teardownFns s). subscriptions cx) \<and>
     (\<forall>j. C j = (containers s j)\<lparr>kids :=
              filter (\<lambda>n. n \<notin> (\<Union>cx\<in>set (teardownFns s). set (ctx_placeholders cx)))
                (kids (containers s j))\<rparr>) \<and>
     H = hidden s - (\<Union>cx\<in>set (teardownFns s). g_node ` set (ctx_stepLayers cx))"
proof -
  from fold_teardown_frame[of "teardownFns s" s] obtain L C H where
    "fold teardown (teardownFns s) s = s\<lparr>containers := C, hidden := H, listeners := L\<rparr>"
    "set L = set (listeners s) - (\<Union>cx\<in>set (teardownFns s). subscriptions cx)"
    "\<forall>j. C j = (containers s j)\<lparr>kids :=
              filter (\<lambda>n. n \<notin> (\<Union>cx\<in>set (teardownFns s). set (ctx_placeholders cx)))
                (kids (containers s j))\<rparr>"
    "H = hidden s - (\<Union>cx\<in>set (teardownFns s). g_node ` set (ctx_stepLayers cx))"
    by blast
  then show ?thesis by (intro exI[of _ L] exI[of _ C] exI[of _ H]) (simp add: destroy_def)
qed



lemma step_spans: "spans (step a s) = spans s"
proof (cases a)
  case (Emit ev)
  from emit_frame[of ev s] obtain H where "emit ev s = s\<lparr>hidden := H\<rparr>" by blast
  with Emit show ?thesis by simp
next
  case (HostVisible V)
  then show ?thesis by simp
next
  case Destroy
  from destroy_frame[of s] obtain L C H where
    "destroy s = s\<lparr>containers := C, hidden := H, listeners := L, teardownFns := []\<rparr>" by blast
  with Destroy show ?thesis by simp
qed

lemma run_spans: "spans (run acts s) = spans s"
  unfolding run_def by (induction acts arbitrary: s) (simp_all add: step_spans)

lemma run_rsvgLayer_of: "rsvgLayer_of (run acts s) p = rsvgLayer_of s p"
  by (simp add: rsvgLayer_of_def run_spans)

lemma step_containers: "a \<noteq> Destroy \<Longrightarrow> containers (step a s) = containers s"
proof (cases a)
  case (Emit ev)
  from emit_frame[of ev s] obtain H where "emit ev s = s\<lparr>hidden := H\<rparr>" by blast
  with Emit show ?thesis by simp
qed simp_all

lemma run_containers: "Destroy \<notin> set acts \<Longrightarrow> containers (run acts s) = containers s"
  unfolding run_def
proof (induction acts arbitrary: s)
  case Nil
  show ?case by simp
next
  case (Cons a acts)
  then have "a \<noteq> Destroy" "Destroy \<notin> set acts" by auto
  with Cons.IH[of "step a s"] step_containers[of a s] show ?case by simp
qed



lemma bound_layers_cong:
  "spans s' = spans s \<Longrightarrow> bound_layers s' = bound_layers s"
  by (simp add: bound_layers_def rsvgLayer_of_def)

lemma reach_teardown:
  "cx \<in> set (teardownFns s) \<Longrightarrow> l \<in> set (ctx_stepLayers cx) \<Longrightarrow> g_node l \<in> reach s"
  unfolding reach_def by blast

lemma reach_mono:
  assumes "bound_layers s' = bound_layers s"
      and "set (listeners s') \<subseteq> set (listeners s)"
      and "set (teardownFns s') \<subseteq> set (teardownFns s)"
  shows "reach s' \<subseteq> reach s"
proof
  fix m assume "m \<in> reach s'"
  then consider "m \<in> bound_layers s'"
    | x where "x \<in> set (listeners s')" "m \<in> g_node ` set (ctx_stepLayers (handler_ctx (snd x)))"
    | cx where "cx \<in> set (teardownFns s')" "m \<in> g_node ` set (ctx_stepLayers cx)"
    unfolding reach_def by blast
  then show "m \<in> reach s"
  proof cases
    case 1
    with assms(1) show ?thesis unfolding reach_def by simp
  next
    case 2
    with assms(2) have "x \<in> set (listeners s)" by blast
    with 2(2) show ?thesis unfolding reach_def by blast
  next
    case 3
    with assms(3) have "cx \<in> set (teardownFns s)" by blast
    with 3(2) show ?thesis unfolding reach_def by blast
  qed
qed


lemma reach_hidden [simp]: "reach (s\<lparr>hidden := H\<rparr>) = reach s"
  by (simp add: reach_def)

lemma reach_visible [simp]: "reach (s\<lparr>visible := V\<rparr>) = reach s"
  by (simp add: reach_def bound_layers_def rsvgLayer_of_def)



lemma emit_reach:
  "reach (emit ev s) = reach s \<and> (\<forall>m. m \<notin> reach s \<longrightarrow> (m \<in> hidden (emit ev s)) = (m \<in> hidden s))"
proof -
  from emit_frame[of ev s] obtain H where H: "emit ev s = s\<lparr>hidden := H\<rparr>"
    "\<forall>m. m \<notin> reach s \<longrightarrow> (m \<in> H) = (m \<in> hidden s)" by blast
  have "reach (emit ev s) = reach s" by (simp add: H(1))
  moreover have "hidden (emit ev s) = H" by (simp add: H(1))
  ultimately show ?thesis using H(2) by simp
qed


lemma destroy_reach:
  "reach (destroy s) \<subseteq> reach s \<and>
   (\<forall>m. m \<notin> reach s \<longrightarrow> (m \<in> hidden (destroy s)) = (m \<in> hidden s))"
proof -
  from destroy_frame[of s] obtain L C H where
    d: "destroy s = s\<lparr>containers := C, hidden := H, listeners := L, teardownFns := []\<rparr>"
    and L: "set L = set (listeners s) - (\<Union>cx\<in>set (teardownFns s). subscriptions cx)"
    and H: "H = hidden s - (\<Union>cx\<in>set (teardownFns s). g_node ` set (ctx_stepLayers cx))"
    by blast
  have sp: "spans (destroy s) = spans s" by (simp add: d)
  have b: "bound_layers (destroy s) = bound_layers s" using sp by (rule bound_layers_cong)
  have "listeners (destroy s) = L" by (simp add: d)
  then have l: "set (listeners (destroy s)) \<subseteq> set (listeners s)" using L by blast
  have "teardownFns (destroy s) = []" by (simp add: d)
  then have t: "set (teardownFns (destroy s)) \<subseteq> set (teardownFns s)" by simp
  have h: "hidden (destroy s) = H" by (simp add: d)
  have "reach (destroy s) \<subseteq> reach s" using b l t by (rule reach_mono)
  moreover have "\<forall>m. m \<notin> reach s \<longrightarrow> (m \<in> hidden (destroy s)) = (m \<in> hidden s)"
  proof (intro allI impI)
    fix m assume m: "m \<notin> reach s"
    have "m \<notin> (\<Union>cx\<in>set (teardownFns s). g_node ` set (ctx_stepLayers cx))"
      using m reach_teardown[of _ s] by blast
    then show "(m \<in> hidden (destroy s)) = (m \<in> hidden s)" unfolding h H by simp
  qed
  ultimately show ?thesis by simp
qed


lemma step_reach:
  "reach (step a s) \<subseteq> reach s \<and>
   (\<forall>m. m \<notin> reach s \<longrightarrow> (m \<in> hidden (step a s)) = (m \<in> hidden s))"
proof (cases a)
  case (Emit ev)
  with emit_reach[of ev s] show ?thesis by simp
next
  case (HostVisible V)
  then show ?thesis by simp
next
  case Destroy
  with destroy_reach[of s] show ?thesis by simp
qed

lemma run_reach:
  "m \<notin> reach s \<Longrightarrow> m \<notin> reach (run acts s) \<and> (m \<in> hidden (run acts s)) = (m \<in> hidden s)"
proof (induction acts arbitrary: s)
  case Nil
  then show ?case by (simp add: run_def)
next
  case (Cons a acts)
  have r: "run (a # acts) s = run acts (step a s)" by (simp add: run_def)
  from step_reach[of a s] Cons.prems
  have "m \<notin> reach (step a s)" and h: "(m \<in> hidden (step a s)) = (m \<in> hidden s)" by blast+
  from Cons.IH[OF this(1)] h show ?case unfolding r by simp
qed

lemma bc_stepLayers:
  "ctx_stepLayers (fst (build_ctx J k svg fc s)) = stepLayers_of J (containers s k) svg"
  by (simp add: bc_fst ctx_next_def)

lemma bc_placeholders:
  "ctx_placeholders (fst (build_ctx J k svg fc s)) =
     [next_node s ..< next_node s + length (stepLayers_of J (containers s k) svg)]"
  by (simp add: bc_fst ctx_next_def)

lemma buildSteps_rsvgLayer_of:
  "rsvgLayer_of (snd (buildSteps J k svg fc s)) p = rsvgLayer_of (snd (build_ctx J k svg fc s)) p"
proof -
  from buildSteps_frame[of J k svg fc s] obtain H where
    "snd (buildSteps J k svg fc s) = (snd (build_ctx J k svg fc s))\<lparr>hidden := H\<rparr>" by blast
  then show ?thesis by simp
qed

lemma buildSteps_containers:
  "containers (snd (buildSteps J k svg fc s)) = containers (snd (build_ctx J k svg fc s))"
proof -
  from buildSteps_frame[of J k svg fc s] obtain H where
    "snd (buildSteps J k svg fc s) = (snd (build_ctx J k svg fc s))\<lparr>hidden := H\<rparr>" by blast
  then show ?thesis by simp
qed

lemma buildSteps_kids:
  "kids (containers (snd (buildSteps J k svg fc s)) k) =
     kids (containers s k) @ ctx_placeholders (fst (build_ctx J k svg fc s))"
  by (simp add: buildSteps_containers bc_containers bc_placeholders)

lemma buildSteps_bound:
  assumes "i < length (stepLayers_of J (containers s k) svg)"
  shows "rsvgLayer_of (snd (buildSteps J k svg fc s)) (ctx_placeholders (fst (build_ctx J k svg fc s)) ! i) =
           Some (ctx_stepLayers (fst (build_ctx J k svg fc s)) ! i)"
  using assms by (simp add: buildSteps_rsvgLayer_of bc_placeholders bc_stepLayers bc_rsvgLayer)

lemma buildSteps_run_bound:
  assumes "i < length (stepLayers_of J (containers s k) svg)"
  shows "rsvgLayer_of (run acts (snd (buildSteps J k svg fc s)))
           (ctx_placeholders (fst (build_ctx J k svg fc s)) ! i) =
         Some (ctx_stepLayers (fst (build_ctx J k svg fc s)) ! i)"
  using assms by (simp add: run_rsvgLayer_of buildSteps_bound)

lemma upt_6_7: "[6 ..< 7] = [6 :: nat]" by code_simp
lemma upt_6_8: "[6 ..< 8] = [6, 7 :: nat]" by code_simp
lemma upt_6_11: "[6 ..< 11] = [6, 7, 8, 9, 10 :: nat]" by code_simp

lemma stepLayers_of_attr:
  "toList J (data_include c) \<noteq> [] \<Longrightarrow> data_base c = data_base c' \<Longrightarrow>
   data_include c = data_include c' \<Longrightarrow> stepLayers_of J c svg = stepLayers_of J c' svg"
  by (simp add: stepLayers_of_cases non_base_def baseSet_def)

lemma baseLayers_of_attr:
  "data_base c = data_base c' \<Longrightarrow> baseLayers_of J c svg = baseLayers_of J c' svg"
  by (simp add: baseLayers_of_filter baseSet_def)

lemma bc_bound_layers:
  "bound_layers (snd (build_ctx J k svg fc s)) \<subseteq>
     bound_layers s \<union> g_node ` set (stepLayers_of J (containers s k) svg)"
proof
  fix m assume "m \<in> bound_layers (snd (build_ctx J k svg fc s))"
  then obtain l p where lp: "m = g_node l" "rsvgLayer_of (snd (build_ctx J k svg fc s)) p = Some l"
    by (auto simp: bound_layers_def)
  show "m \<in> bound_layers s \<union> g_node ` set (stepLayers_of J (containers s k) svg)"
  proof (cases "next_node s \<le> p \<and> p < next_node s + length (stepLayers_of J (containers s k) svg)")
    case True
    then have "p \<in> set (ctx_placeholders (ctx_next J k svg s))" by (simp add: ctx_next_def)
    from bc_placeholders_bound[OF this, of fc] lp show ?thesis by auto
  next
    case False
    with lp(2) have "rsvgLayer_of s p = Some l" by (simp add: rsvgLayer_of_def bc_spans)
    with lp(1) show ?thesis by (auto simp: bound_layers_def)
  qed
qed

lemma buildSteps_reach:
  "reach (snd (buildSteps J k svg fc s)) \<subseteq>
     reach s \<union> g_node ` set (stepLayers_of J (containers s k) svg)"
proof -
  let ?b = "snd (build_ctx J k svg fc s)"
  from buildSteps_frame[of J k svg fc s] obtain H where
    "snd (buildSteps J k svg fc s) = ?b\<lparr>hidden := H\<rparr>" by blast
  then have r: "reach (snd (buildSteps J k svg fc s)) = reach ?b" by simp
  have "reach ?b \<subseteq> reach s \<union> g_node ` set (stepLayers_of J (containers s k) svg)"
  proof
    fix m assume "m \<in> reach ?b"
    then consider "m \<in> bound_layers ?b"
      | x where "x \<in> set (listeners ?b)" "m \<in> g_node ` set (ctx_stepLayers (handler_ctx (snd x)))"
      | cx where "cx \<in> set (teardownFns ?b)" "m \<in> g_node ` set (ctx_stepLayers cx)"
      unfolding reach_def by blast
    then show "m \<in> reach s \<union> g_node ` set (stepLayers_of J (containers s k) svg)"
    proof cases
      case 1
      with bc_bound_layers[of J k svg fc s] show ?thesis unfolding reach_def by blast
    next
      case 2
      from 2(1) have "x \<in> set (listeners s) \<or> handler_ctx (snd x) = ctx_next J k svg s"
        by (auto simp: bc_listeners)
      then show ?thesis
      proof
        assume "x \<in> set (listeners s)"
        with 2(2) show ?thesis unfolding reach_def by blast
      next
        assume "handler_ctx (snd x) = ctx_next J k svg s"
        with 2(2) show ?thesis by (simp add: ctx_next_def)
      qed
    next
      case 3
      from 3(1) have "cx \<in> set (teardownFns s) \<or> cx = ctx_next J k svg s"
        by (auto simp: bc_teardownFns)
      then show ?thesis
      proof
        assume "cx \<in> set (teardownFns s)"
        with 3(2) show ?thesis unfolding reach_def by blast
      next
        assume "cx = ctx_next J k svg s"
        with 3(2) show ?thesis by (simp add: ctx_next_def)
      qed
    qed
  qed
  with r show ?thesis by simp
qed

lemma buildSteps_hidden:
  "hidden (snd (buildSteps J k svg fc s)) \<subseteq>
     (hidden s - g_node ` set (baseLayers_of J (containers s k) svg))
       \<union> g_node ` set (stepLayers_of J (containers s k) svg) \<and>
   (\<forall>m. m \<notin> g_node ` set (stepLayers_of J (containers s k) svg) \<longrightarrow>
      (m \<in> hidden (snd (buildSteps J k svg fc s))) =
      (m \<in> hidden s - g_node ` set (baseLayers_of J (containers s k) svg)))"
proof -
  let ?b = "snd (build_ctx J k svg fc s)"
  from buildSteps_frame[of J k svg fc s] obtain H where H:
    "snd (buildSteps J k svg fc s) = ?b\<lparr>hidden := H\<rparr>" "H \<subseteq> hidden ?b"
    "\<forall>m. m \<notin> g_node ` set (stepLayers_of J (containers s k) svg) \<longrightarrow> (m \<in> H) = (m \<in> hidden ?b)"
    by blast
  have h: "hidden (snd (buildSteps J k svg fc s)) = H" by (simp add: H(1))
  show ?thesis unfolding h using H(2,3) by (auto simp: bc_hidden)
qed

lemma sample_steps:
  "stepLayers_of J (blank_container\<lparr>data_base := Some ''Axes,Grid'',
       data_include := Some ''Step1,Step3''\<rparr>) sample_svg = [layer 3 ''Step1'', layer 5 ''Step3'']"
  by code_simp

lemma sample_base:
  "baseLayers_of J (blank_container\<lparr>data_base := Some ''Axes,Grid'',
       data_include := Some ''Step1,Step3''\<rparr>) sample_svg = [layer 1 ''Axes'', layer 2 ''Grid'']"
  by code_simp

lemma sample_include: "toList J (Some ''Step1,Step3'') = [''Step1'', ''Step3'']"
  by code_simp

lemma reach_start_state: "reach (start_state c) = {}"
  by (simp add: reach_def bound_layers_def rsvgLayer_of_def start_state_def)





lemma buildSteps_uid:
  assumes "i < length (stepLayers_of J (containers s k) svg)"
  shows "uid_of (snd (buildSteps J k svg fc s)) (next_node s + i) =
           Some (ctx_uid (fst (build_ctx J k svg fc s)))"
proof -
  from buildSteps_frame[of J k svg fc s] obtain H where
    "snd (buildSteps J k svg fc s) = (snd (build_ctx J k svg fc s))\<lparr>hidden := H\<rparr>" by blast
  then show ?thesis using assms by (simp add: bc_uid bc_fst ctx_next_def)
qed

lemma buildSteps_fields:
  "console (snd (buildSteps J k svg fc s)) = console s \<and>
   listeners (snd (buildSteps J k svg fc s)) =
     listeners s @
       [(''fragmentshown'', OnFragmentShown (ctx_next J k svg s)),
        (''fragmenthidden'', OnFragmentHidden (ctx_next J k svg s)),
        (''slidechanged'', OnSlideChanged (ctx_next J k svg s))] \<and>
   teardownFns (snd (buildSteps J k svg fc s)) = teardownFns s @ [ctx_next J k svg s]"
proof -
  from buildSteps_frame[of J k svg fc s] obtain H where
    "snd (buildSteps J k svg fc s) = (snd (build_ctx J k svg fc s))\<lparr>hidden := H\<rparr>" by blast
  then show ?thesis by (simp add: bc_misc bc_listeners bc_teardownFns)
qed

lemma inlineExternalSvg_fails:
  assumes "fetch e src = Inl err \<or>
           (\<exists>res. fetch e src = Inr res \<and> \<not> res_ok res \<and>
                  err = Error (''Failed to load SVG: '' @ src)) \<or>
           (\<exists>res. fetch e src = Inr res \<and> res_ok res \<and> res_text res = Inl err)"
  shows "inlineExternalSvg k src e s = Inl err"
  using assms by (auto simp: inlineExternalSvg_def)

section \<open>Repeated initialisation\<close>

lemma buildSteps_processed:
  "rsvgProcessed (containers (snd (buildSteps J k svg fc s)) j) = rsvgProcessed (containers s j)"
  by (simp add: buildSteps_containers bc_containers)

lemma inlineExternalSvg_processed:
  "inlineExternalSvg k src e s = Inr (svg, s') \<Longrightarrow>
   rsvgProcessed (containers s' j) = rsvgProcessed (containers s j)"
  by (auto simp: inlineExternalSvg_def importNode_def appendChild_def Let_def
      split: sum.splits if_splits)

lemma initContainer_marks:
  "rsvgProcessed (containers (snd (initContainer J e k s)) k)"
proof (cases "rsvgProcessed (containers s k)")
  case True
  then show ?thesis by (simp add: initContainer_def)
next
  case False
  let ?s1 = "s\<lparr>containers := (containers s)(k := (containers s k)\<lparr>rsvgProcessed := True\<rparr>)\<rparr>"
  have p1: "rsvgProcessed (containers ?s1 k)" by simp
  show ?thesis
  proof (cases "inline_svg (containers s k) = None \<and> truthy (data_src (containers s k))")
    case True
    show ?thesis
    proof (cases "inlineExternalSvg k (the (data_src (containers s k))) e ?s1")
      case (Inl err)
      with False True show ?thesis by (simp add: initContainer_def Let_def)
    next
      case (Inr r)
      obtain svg s2 where r: "r = (svg, s2)" by (cases r)
      from inlineExternalSvg_processed[OF Inr[unfolded r], of k] p1
      have "rsvgProcessed (containers s2 k)" by simp
      with False True Inr r show ?thesis
        by (simp add: initContainer_def Let_def buildSteps_processed)
    qed
  next
    case nofetch: False
    show ?thesis
    proof (cases "inline_svg (containers s k)")
      case None
      with False nofetch show ?thesis by (simp add: initContainer_def Let_def)
    next
      case (Some svg)
      with False show ?thesis
        by (simp add: initContainer_def Let_def buildSteps_processed)
    qed
  qed
qed

lemma decoration_update [simp]:
  "decoration (updateHudAndVars mirror el) = decoration el"
  by (simp add: decoration_def updateHudAndVars_def Let_def)

lemma processed_update [simp]:
  "processed (updateHudAndVars mirror el) = processed el"
  by (simp add: updateHudAndVars_def Let_def)

lemma in_section_update [simp]:
  "in_section (updateHudAndVars mirror el) = in_section el"
  by (simp add: updateHudAndVars_def Let_def)

lemma scan_processed: "processed (scan el) \<or> scan el = el"
  by (simp add: scan_def scan_step_def initOne_def Let_def)

lemma scan_scan: "decoration (scan (scan el)) = decoration (scan el)"
proof -
  from scan_processed[of el] show ?thesis
  proof
    assume "processed (scan el)"
    then show ?thesis by (simp add: scan_def[of "scan el"] scan_step_def)
  next
    assume "scan el = el"
    then show ?thesis by simp
  qed
qed

lemma scan_step_again:
  "fst (scan_step el) = None \<Longrightarrow> fst (scan_step (scan el)) = None"
  by (simp add: scan_def scan_step_def initOne_def Let_def addGrip_def addHud_def
      enableDrag_def observeResize_def split: if_splits)

lemma scan_step_throws:
  "fst (scan_step el) = Some e \<Longrightarrow> snd (scan_step el) = el"
  by (simp add: scan_step_def split: if_splits)

lemma scan_all_twice:
  "map decoration (scan_all (scan_all els)) = map decoration (scan_all els)"
proof (induction els)
  case Nil
  show ?case by simp
next
  case (Cons el els)
  show ?case
  proof (cases "fst (scan_step el)")
    case None
    then have 1: "scan_all (el # els) = scan el # scan_all els"
      by (simp add: scan_def split_beta)
    from scan_step_again[OF None]
    have 2: "scan_all (scan el # scan_all els) = scan (scan el) # scan_all (scan_all els)"
      by (simp add: scan_def[of "scan el"] split_beta)
    show ?thesis unfolding 1 2 using Cons scan_scan by simp
  next
    case (Some e)
    from scan_step_throws[OF Some] Some
    have "scan_all (el # els) = el # els" by (simp add: split_beta)
    then show ?thesis by simp
  qed
qed

section \<open>When the style variables are written\<close>

lemma committed_update_False [simp]: "committed (updateHudAndVars False el) = committed el"
  by (simp add: updateHudAndVars_def committed_def)

lemma committed_update_True:
  "committed (updateHudAndVars True el) =
     committed el @ [''--floating-left'', ''--floating-top'', ''--floating-w'', ''--floating-h'']"
  by (simp add: updateHudAndVars_def committed_def)

lemma committed_upd_closure [simp]: "committed (upd_closure i f el) = committed el"
  by (simp add: committed_def upd_closure_def)

lemma closures_update [simp]: "closures (updateHudAndVars m el) = closures el"
  by (simp add: updateHudAndVars_def Let_def)

lemma committed_on_pointerdown [simp]: "committed (on_pointerdown g a i el) = committed el"
  by (simp add: on_pointerdown_def startDrag_def Let_def)

lemma committed_on_pointermove [simp]: "committed (on_pointermove i el) = committed el"
  by (simp add: on_pointermove_def onMove_def committed_def updateHudAndVars_def)

lemma committed_fold:
  "(\<And>i el. committed (f i el) = committed el) \<Longrightarrow> committed (fold f xs el) = committed el"
  by (induction xs arbitrary: el) simp_all

lemma committed_funpow [simp]: "committed (((updateHudAndVars False) ^^ n) el) = committed el"
  by (induction n) simp_all

lemma intermediate_events_commit_nothing:
  "ev \<noteq> PointerUp \<Longrightarrow> committed (deliver ev el) = committed el"
proof (cases ev)
  case (PointerDown g a)
  then show ?thesis by (simp add: committed_fold)
next
  case PointerMove
  then show ?thesis by (simp add: committed_fold)
next
  case Frame
  have "committed (el\<lparr>raf := r\<rparr>) = committed el" for r by (simp add: committed_def)
  with Frame show ?thesis by (simp add: on_frame_def Let_def)
qed simp_all

lemma fold_id: "(\<And>i. i \<in> set xs \<Longrightarrow> f i el = el) \<Longrightarrow> fold f xs el = el"
  by (induction xs) simp_all

lemma idle_pointerup: "idle el \<Longrightarrow> deliver PointerUp el = el"
proof -
  assume i: "idle el"
  have "fold on_pointerup [0 ..< length (closures el)] el = el"
  proof (rule fold_id)
    fix j assume "j \<in> set [0 ..< length (closures el)]"
    then have "closures el ! j \<in> set (closures el)" by simp
    with i have "\<not> win_up (closures el ! j)" by (simp add: idle_def)
    then show "on_pointerup j el = el" by (simp add: on_pointerup_def)
  qed
  then show ?thesis by simp
qed

lemma idle_pointerdown: "deliver (PointerDown False False) el = el"
  by (simp add: on_pointerdown_def fold_id)

lemma closures_on_pointermove [simp]: "closures (on_pointermove i el) = closures el"
  by (simp add: on_pointermove_def onMove_def)

lemma closures_fold:
  "(\<And>i el. closures (f i el) = closures el) \<Longrightarrow> closures (fold f xs el) = closures el"
  by (induction xs arbitrary: el) simp_all

lemma idle_pointermove: "idle el \<Longrightarrow> idle (deliver PointerMove el)"
  by (simp add: idle_def closures_fold)

lemma idle_funpow: "idle el \<Longrightarrow> idle (((updateHudAndVars False) ^^ n) el)"
  by (induction n) (simp_all add: idle_def)

lemma idle_deliver:
  assumes "idle el" and "\<forall>g a. ev = PointerDown g a \<longrightarrow> \<not> g \<and> \<not> a"
  shows "idle (deliver ev el)"
proof (cases ev)
  case (PointerDown g a)
  with assms show ?thesis by (simp add: idle_pointerdown del: deliver.simps)
next
  case PointerMove
  with assms show ?thesis by (simp add: idle_pointermove del: deliver.simps)
next
  case PointerUp
  with assms show ?thesis by (simp add: idle_pointerup del: deliver.simps)
next
  case ResizeTick
  with assms show ?thesis by (simp add: idle_funpow)
next
  case Frame
  have "idle (el\<lparr>raf := r\<rparr>)" for r using assms(1) by (simp add: idle_def)
  with Frame show ?thesis by (simp add: on_frame_def Let_def idle_funpow)
qed

lemma resize_never_commits:
  assumes "idle el" and "\<forall>ev\<in>set evs. \<forall>g a. ev = PointerDown g a \<longrightarrow> \<not> g \<and> \<not> a"
  shows "committed (gesture evs el) = committed el"
  using assms unfolding gesture_def
proof (induction evs arbitrary: el)
  case Nil
  show ?case by simp
next
  case (Cons ev evs)
  have i: "idle (deliver ev el)" using Cons.prems by (intro idle_deliver) auto
  have c: "committed (deliver ev el) = committed el"
  proof (cases "ev = PointerUp")
    case True
    with Cons.prems(1) show ?thesis by (simp add: idle_pointerup del: deliver.simps)
  next
    case False
    then show ?thesis by (rule intermediate_events_commit_nothing)
  qed
  from Cons.prems(2) have "\<forall>x\<in>set evs. \<forall>g a. x = PointerDown g a \<longrightarrow> \<not> g \<and> \<not> a"
    by (meson list.set_intros(2))
  from Cons.IH[OF i this] c show ?case by simp
qed

lemma idle_scan_blank: "idle (scan blank_floating)"
  by (simp add: idle_def scan_def scan_step_def initOne_def blank_floating_def Let_def
      addGrip_def addHud_def enableDrag_def observeResize_def)

lemma resize_gestures_commit_nothing:
  assumes "\<forall>ev\<in>set evs. \<forall>g a. ev = PointerDown g a \<longrightarrow> \<not> g \<and> \<not> a"
  shows "committed (gesture evs (scan blank_floating)) = []"
proof -
  have "committed (scan blank_floating) = []"
    by (simp add: committed_def scan_def scan_step_def initOne_def blank_floating_def Let_def
        addGrip_def addHud_def enableDrag_def observeResize_def)
  with resize_never_commits[OF idle_scan_blank assms] show ?thesis by simp
qed

lemma drag_end_commits_once:
  assumes "closures el = [cl]" and "win_up cl"
  shows "committed (deliver PointerUp el) =
           committed el @ [''--floating-left'', ''--floating-top'', ''--floating-w'', ''--floating-h'']"
  using assms by (simp add: on_pointerup_def onUp_def committed_update_True)

section \<open>Strings outside ASCII\<close>

text \<open>
  With a runtime that folds the accented capital, the layer labelled with a capital E
  acute is a base layer for \<open>data-base\<close> with a small e acute, and a no-break space around
  a name of the include list is trimmed away.
\<close>

lemma accented_label_is_base:
  "stepLayers_of latin_js
     (blank_container\<lparr>data_base := Some ([CHR 0xC3, CHR 0xA9] @ ''cole''),
        data_order := Some ''reverse''\<rparr>) accent_svg =
     [layer 3 ''Note'', layer 2 ''Plan'']"
  by code_simp

lemma no_break_space_is_trimmed:
  "toList latin_js (Some (''Step1,'' @ [CHR 0xC2, CHR 0xA0] @ ''Step3'')) = [''Step1'', ''Step3'']"
  by code_simp

lemma no_break_space_label_not_matched:
  "stepLayers_of latin_js
     (blank_container\<lparr>data_include := Some (''Step1'' @ [CHR 0xC2, CHR 0xA0])\<rparr>)
     \<lparr>svg_node = 0, width_attr = None, height_attr = None, style_attr = None,
      groups = [layer 1 (''Step1'' @ [CHR 0xC2, CHR 0xA0])], parsererror = False\<rparr> = []"
  by code_simp

section \<open>Claims about the step sequence\<close>

text \<open>
  C6. A container with no \<open>data-include\<close> attribute and \<open>data-order="reverse"\<close>: the step
  layers that \<open>buildSteps\<close> produces are the groups that are not base layers, in the
  reverse of their document order. A group is a base layer when its label, folded to lower
  case by the runtime, is among the trimmed and folded entries of \<open>data-base\<close>; the
  statement holds for every runtime \<open>J\<close>.
\<close>

theorem reverse_order_steps:
  assumes "data_include (containers s k) = None"
      and "data_order (containers s k) = Some ''reverse''"
  shows "ctx_stepLayers (fst (build_ctx J k svg fc s)) =
           rev (filter (\<lambda>g. toLowerCase J (getInkscapeLabel g) \<notin>
                              set (map (toLowerCase J) (toList J (data_base (containers s k)))))
                  (findLayers svg))"
  using assms
  by (simp add: bc_fst ctx_next_def stepLayers_of_cases toList_None order_rev non_base_def
      byName_def baseSet_def)

theorem reverse_order_steps_witness:
  "data_include (containers (start_state (blank_container
       \<lparr>data_base := Some ([CHR 0xC3, CHR 0xA9] @ ''cole''),
        data_order := Some ''reverse''\<rparr>)) 0) = None \<and>
   data_order (containers (start_state (blank_container
       \<lparr>data_base := Some ([CHR 0xC3, CHR 0xA9] @ ''cole''),
        data_order := Some ''reverse''\<rparr>)) 0) = Some ''reverse'' \<and>
   ctx_stepLayers (fst (build_ctx latin_js 0 accent_svg []
       (start_state (blank_container
          \<lparr>data_base := Some ([CHR 0xC3, CHR 0xA9] @ ''cole''),
           data_order := Some ''reverse''\<rparr>)))) =
     [layer 3 ''Note'', layer 2 ''Plan'']"
proof -
  let ?s = "start_state (blank_container
       \<lparr>data_base := Some ([CHR 0xC3, CHR 0xA9] @ ''cole''),
        data_order := Some ''reverse''\<rparr>)"
  have h1: "data_include (containers ?s 0) = None"
    by (simp add: start_state_def blank_container_def)
  have h2: "data_order (containers ?s 0) = Some ''reverse''"
    by (simp add: start_state_def blank_container_def)
  have "rev (filter (\<lambda>g. toLowerCase latin_js (getInkscapeLabel g) \<notin>
                              set (map (toLowerCase latin_js)
                                     (toList latin_js (data_base (containers ?s 0)))))
                  (findLayers accent_svg)) =
          [layer 3 ''Note'', layer 2 ''Plan'']"
    by code_simp
  with reverse_order_steps[OF h1 h2, of latin_js accent_svg "[]"] h1 h2 show ?thesis by simp
qed

text \<open>
  C7. When the include list (split at commas and trimmed by the runtime) holds a name
  that is the label of no group outside the base layers (both folded to lower case by the
  runtime), \<open>buildSteps\<close> raises no error, no step layer carries that name, and the names
  of the step layers are the matched names of the include list, in the order of the list.
  The statement holds for every runtime \<open>J\<close>.
\<close>

theorem unmatched_include_names_dropped:
  assumes "n \<in> set (toList J (data_include (containers s k)))"
      and "\<forall>g\<in>set (non_base J (containers s k) svg). byName J g \<noteq> toLowerCase J n"
  shows "fst (buildSteps J k svg fc s) = None \<and>
         toLowerCase J n \<notin> byName J ` set (ctx_stepLayers (fst (build_ctx J k svg fc s))) \<and>
         map (byName J) (ctx_stepLayers (fst (build_ctx J k svg fc s))) =
           filter (\<lambda>nm. \<exists>g\<in>set (non_base J (containers s k) svg). byName J g = nm)
             (map (toLowerCase J) (toList J (data_include (containers s k))))"
proof -
  let ?c = "containers s k"
  from assms(1) have ne: "toList J (data_include ?c) \<noteq> []" by auto
  then have steps: "stepLayers_of J ?c svg = lookups J (non_base J ?c svg) (toList J (data_include ?c))"
    by (simp add: stepLayers_of_cases)
  have "set (stepLayers_of J ?c svg) \<subseteq> set (non_base J ?c svg)" by (rule stepLayers_subset)
  with assms(2) have "toLowerCase J n \<notin> byName J ` set (stepLayers_of J ?c svg)" by force
  moreover have "(\<lambda>nm. nm \<in> byName J ` set (non_base J ?c svg)) =
                 (\<lambda>nm. \<exists>g\<in>set (non_base J ?c svg). byName J g = nm)"
    by auto
  then have "map (byName J) (stepLayers_of J ?c svg) =
           filter (\<lambda>nm. \<exists>g\<in>set (non_base J ?c svg). byName J g = nm)
             (map (toLowerCase J) (toList J (data_include ?c)))"
    by (simp add: steps lookups_names)
  ultimately show ?thesis by (simp add: buildSteps_ok bc_stepLayers)
qed

theorem unmatched_include_names_dropped_witness:
  "''Nope'' \<in> set (toList latin_js (data_include (containers (start_state (blank_container
       \<lparr>data_base := Some ''Axes,Grid'', data_include := Some (''Step1,Nope,'' @ [CHR 0xC2, CHR 0xA0] @ ''step3'')\<rparr>)) 0))) \<and>
   fst (buildSteps latin_js 0 sample_svg [] (start_state (blank_container
       \<lparr>data_base := Some ''Axes,Grid'', data_include := Some (''Step1,Nope,'' @ [CHR 0xC2, CHR 0xA0] @ ''step3'')\<rparr>))) = None \<and>
   map (byName latin_js) (ctx_stepLayers (fst (build_ctx latin_js 0 sample_svg []
       (start_state (blank_container
       \<lparr>data_base := Some ''Axes,Grid'', data_include := Some (''Step1,Nope,'' @ [CHR 0xC2, CHR 0xA0] @ ''step3'')\<rparr>))))) =
     [''step1'', ''step3'']"
proof -
  let ?s = "start_state (blank_container
       \<lparr>data_base := Some ''Axes,Grid'', data_include := Some (''Step1,Nope,'' @ [CHR 0xC2, CHR 0xA0] @ ''step3'')\<rparr>)"
  have h1: "''Nope'' \<in> set (toList latin_js (data_include (containers ?s 0)))"
    by code_simp
  have h2: "\<forall>g\<in>set (non_base latin_js (containers ?s 0) sample_svg).
              byName latin_js g \<noteq> toLowerCase latin_js ''Nope''"
    by code_simp
  have "filter (\<lambda>nm. \<exists>g\<in>set (non_base latin_js (containers ?s 0) sample_svg).
                        byName latin_js g = nm)
             (map (toLowerCase latin_js) (toList latin_js (data_include (containers ?s 0)))) =
          [''step1'', ''step3'']"
    by code_simp
  with unmatched_include_names_dropped[OF h1 h2, of "[]"] h1 show ?thesis by simp
qed

text \<open>
  C10. A group whose label, folded to lower case by the runtime, is among the trimmed and
  folded entries of \<open>data-base\<close> is a base layer, whatever the include list says: it is no
  step layer, the lookup of its name among the groups outside the base layers finds
  nothing, no step layer carries its name, and no placeholder that \<open>buildSteps\<close> creates
  refers to it. The statement holds for every runtime \<open>J\<close>.
\<close>

theorem base_wins_over_include:
  assumes "g \<in> set (findLayers svg)"
      and "toLowerCase J (getInkscapeLabel g) \<in>
             set (map (toLowerCase J) (toList J (data_base (containers s k))))"
  shows "g \<in> set (baseLayers_of J (containers s k) svg) \<and>
         g \<notin> set (ctx_stepLayers (fst (build_ctx J k svg fc s))) \<and>
         mapByName J (non_base J (containers s k) svg) (toLowerCase J (getInkscapeLabel g)) = None \<and>
         toLowerCase J (getInkscapeLabel g) \<notin>
           byName J ` set (ctx_stepLayers (fst (build_ctx J k svg fc s))) \<and>
         (\<forall>p\<in>set (ctx_placeholders (fst (build_ctx J k svg fc s))).
            rsvgLayer_of (snd (buildSteps J k svg fc s)) p \<noteq> Some g)"
proof -
  let ?c = "containers s k" and ?cx = "fst (build_ctx J k svg fc s)"
  from assms(2) have b: "byName J g \<in> baseSet J ?c" by (simp add: byName_def baseSet_def)
  have nb: "byName J g \<notin> byName J ` set (non_base J ?c svg)"
    using b by (auto simp: non_base_def)
  have sub: "set (ctx_stepLayers ?cx) \<subseteq> set (non_base J ?c svg)"
    by (simp add: bc_stepLayers stepLayers_subset)
  have 1: "g \<in> set (baseLayers_of J ?c svg)" using assms(1) b by (simp add: baseLayers_of_filter)
  have 2: "byName J g \<notin> byName J ` set (ctx_stepLayers ?cx)" using nb sub by blast
  then have 3: "g \<notin> set (ctx_stepLayers ?cx)" by blast
  have 4: "mapByName J (non_base J ?c svg) (byName J g) = None" using nb by (simp add: mapByName_None)
  have 5: "\<forall>p\<in>set (ctx_placeholders ?cx). rsvgLayer_of (snd (buildSteps J k svg fc s)) p \<noteq> Some g"
  proof
    fix p assume "p \<in> set (ctx_placeholders ?cx)"
    then have "p \<in> set (ctx_placeholders (ctx_next J k svg s))" by (simp add: bc_fst)
    from bc_placeholders_bound[OF this, of fc] obtain l where
      "l \<in> set (stepLayers_of J ?c svg)" "rsvgLayer_of (snd (build_ctx J k svg fc s)) p = Some l"
      by blast
    with 3 show "rsvgLayer_of (snd (buildSteps J k svg fc s)) p \<noteq> Some g"
      by (auto simp: buildSteps_rsvgLayer_of bc_stepLayers)
  qed
  from 1 2 3 4 5 show ?thesis by (simp add: byName_def)
qed

theorem base_wins_over_include_witness:
  "layer 1 (CHR 0xC3 # CHR 0x89 # ''cole'') \<in> set (findLayers accent_svg) \<and>
   (CHR 0xC3 # CHR 0xA9 # ''cole'') \<in> set (map (toLowerCase latin_js) (toList latin_js (data_include
     (containers (start_state (blank_container
       \<lparr>data_base := Some (CHR 0xC3 # CHR 0xA9 # ''cole''), data_include := Some (CHR 0xC3 # CHR 0x89 # ''cole,Plan'')\<rparr>)) 0)))) \<and>
   layer 1 (CHR 0xC3 # CHR 0x89 # ''cole'') \<in> set (baseLayers_of latin_js
     (containers (start_state (blank_container
       \<lparr>data_base := Some (CHR 0xC3 # CHR 0xA9 # ''cole''), data_include := Some (CHR 0xC3 # CHR 0x89 # ''cole,Plan'')\<rparr>)) 0) accent_svg) \<and>
   layer 1 (CHR 0xC3 # CHR 0x89 # ''cole'') \<notin> set (ctx_stepLayers (fst (build_ctx latin_js 0 accent_svg []
     (start_state (blank_container
       \<lparr>data_base := Some (CHR 0xC3 # CHR 0xA9 # ''cole''), data_include := Some (CHR 0xC3 # CHR 0x89 # ''cole,Plan'')\<rparr>))))) \<and>
   ctx_placeholders (fst (build_ctx latin_js 0 accent_svg []
     (start_state (blank_container
       \<lparr>data_base := Some (CHR 0xC3 # CHR 0xA9 # ''cole''), data_include := Some (CHR 0xC3 # CHR 0x89 # ''cole,Plan'')\<rparr>)))) = [6]"
proof -
  let ?s = "start_state (blank_container
       \<lparr>data_base := Some (CHR 0xC3 # CHR 0xA9 # ''cole''), data_include := Some (CHR 0xC3 # CHR 0x89 # ''cole,Plan'')\<rparr>)"
  have h1: "layer 1 (CHR 0xC3 # CHR 0x89 # ''cole'') \<in> set (findLayers accent_svg)" by code_simp
  have h2: "toLowerCase latin_js (getInkscapeLabel (layer 1 (CHR 0xC3 # CHR 0x89 # ''cole''))) \<in>
             set (map (toLowerCase latin_js) (toList latin_js (data_base (containers ?s 0))))"
    by code_simp
  have h3: "(CHR 0xC3 # CHR 0xA9 # ''cole'') \<in> set (map (toLowerCase latin_js)
              (toList latin_js (data_include (containers ?s 0))))"
    by code_simp
  have st: "stepLayers_of latin_js (containers ?s 0) accent_svg = [layer 2 ''Plan'']"
    by code_simp
  have nn: "next_node ?s = 6" by (simp add: start_state_def)
  have h4: "ctx_placeholders (fst (build_ctx latin_js 0 accent_svg [] ?s)) = [6]"
    by (simp add: bc_placeholders st nn upt_6_7)
  from base_wins_over_include[OF h1 h2, of "[]"] h1 h3 h4 show ?thesis by simp
qed

text \<open>
  C1, as amended. A container whose include list (split at commas and trimmed by the
  runtime) has \<open>N\<close> names, \<open>N\<close> at least one, each the label of some group outside the
  base layers (both folded to lower case by the runtime), for every runtime \<open>J\<close>:
  \<open>buildSteps\<close> returns without an error, the step layers are \<open>N\<close> groups whose names are
  those of the include list in its order, \<open>N\<close> placeholders are appended to the children
  of the container, and the \<open>i\<close>-th placeholder refers to the \<open>i\<close>-th step layer after any
  sequence of deck events, changes of the fragments' visibility and teardown; the
  placeholders stay the last children of the container until the plugin is destroyed.
\<close>

theorem include_list_steps:
  assumes "toList J (data_include (containers s k)) \<noteq> []"
      and "\<forall>n\<in>set (toList J (data_include (containers s k))).
             \<exists>g\<in>set (non_base J (containers s k) svg). byName J g = toLowerCase J n"
  shows "fst (buildSteps J k svg fc s) = None \<and>
         length (ctx_stepLayers (fst (build_ctx J k svg fc s))) =
           length (toList J (data_include (containers s k))) \<and>
         map (byName J) (ctx_stepLayers (fst (build_ctx J k svg fc s))) =
           map (toLowerCase J) (toList J (data_include (containers s k))) \<and>
         set (ctx_stepLayers (fst (build_ctx J k svg fc s))) \<subseteq> set (non_base J (containers s k) svg) \<and>
         length (ctx_placeholders (fst (build_ctx J k svg fc s))) =
           length (toList J (data_include (containers s k))) \<and>
         kids (containers (snd (buildSteps J k svg fc s)) k) =
           kids (containers s k) @ ctx_placeholders (fst (build_ctx J k svg fc s)) \<and>
         (\<forall>acts. \<forall>i < length (toList J (data_include (containers s k))).
            rsvgLayer_of (run acts (snd (buildSteps J k svg fc s)))
              (ctx_placeholders (fst (build_ctx J k svg fc s)) ! i) =
            Some (ctx_stepLayers (fst (build_ctx J k svg fc s)) ! i)) \<and>
         (\<forall>acts. Destroy \<notin> set acts \<longrightarrow>
            kids (containers (run acts (snd (buildSteps J k svg fc s))) k) =
              kids (containers s k) @ ctx_placeholders (fst (build_ctx J k svg fc s)))"
proof -
  let ?c = "containers s k" and ?cx = "fst (build_ctx J k svg fc s)"
  let ?incl = "toList J (data_include ?c)"
  have steps: "stepLayers_of J ?c svg = lookups J (non_base J ?c svg) ?incl"
    using assms(1) by (simp add: stepLayers_of_cases)
  have "\<forall>n\<in>set (map (toLowerCase J) ?incl). n \<in> byName J ` set (non_base J ?c svg)"
    using assms(2) by force
  then have "filter (\<lambda>n. n \<in> byName J ` set (non_base J ?c svg)) (map (toLowerCase J) ?incl) =
             map (toLowerCase J) ?incl"
    by (simp only: filter_True)
  then have names: "map (byName J) (stepLayers_of J ?c svg) = map (toLowerCase J) ?incl"
    by (simp add: steps lookups_names)
  from arg_cong[OF names, of length] have len: "length (stepLayers_of J ?c svg) = length ?incl"
    by simp
  have bound: "\<forall>acts. \<forall>i < length ?incl.
            rsvgLayer_of (run acts (snd (buildSteps J k svg fc s))) (ctx_placeholders ?cx ! i) =
            Some (ctx_stepLayers ?cx ! i)"
    using buildSteps_run_bound[of _ J s k svg _ fc] len by simp
  have kids: "\<forall>acts. Destroy \<notin> set acts \<longrightarrow>
            kids (containers (run acts (snd (buildSteps J k svg fc s))) k) =
              kids (containers s k) @ ctx_placeholders ?cx"
    by (simp add: run_containers buildSteps_kids)
  show ?thesis
    using names len bound kids
    by (simp add: buildSteps_ok bc_stepLayers bc_placeholders buildSteps_kids stepLayers_subset)
qed

theorem include_list_steps_witness:
  "toList latin_js (data_include (containers (start_state (blank_container
       \<lparr>data_base := Some ''Axes,Grid'', data_include := Some (CHR 0xC2 # CHR 0xA0 # ''step3, Step1'')\<rparr>)) 0)) =
     [''step3'', ''Step1''] \<and>
   ctx_stepLayers (fst (build_ctx latin_js 0 sample_svg [] (start_state (blank_container
       \<lparr>data_base := Some ''Axes,Grid'', data_include := Some (CHR 0xC2 # CHR 0xA0 # ''step3, Step1'')\<rparr>)))) =
     [layer 5 ''Step3'', layer 3 ''Step1''] \<and>
   kids (containers (snd (buildSteps latin_js 0 sample_svg [] (start_state (blank_container
       \<lparr>data_base := Some ''Axes,Grid'', data_include := Some (CHR 0xC2 # CHR 0xA0 # ''step3, Step1'')\<rparr>)))) 0) = [6, 7] \<and>
   rsvgLayer_of (run [Emit (Fragmentshown (Some 6)), Emit (Slidechanged (Some [0])), Destroy]
       (snd (buildSteps latin_js 0 sample_svg [] (start_state (blank_container
       \<lparr>data_base := Some ''Axes,Grid'', data_include := Some (CHR 0xC2 # CHR 0xA0 # ''step3, Step1'')\<rparr>))))) 7 =
     Some (layer 3 ''Step1'')"
proof -
  let ?s = "start_state (blank_container
       \<lparr>data_base := Some ''Axes,Grid'', data_include := Some (CHR 0xC2 # CHR 0xA0 # ''step3, Step1'')\<rparr>)"
  let ?acts = "[Emit (Fragmentshown (Some 6)), Emit (Slidechanged (Some [0])), Destroy]"
  have incl: "toList latin_js (data_include (containers ?s 0)) = [''step3'', ''Step1'']" by code_simp
  have h1: "toList latin_js (data_include (containers ?s 0)) \<noteq> []" by (simp add: incl)
  have h2: "\<forall>n\<in>set (toList latin_js (data_include (containers ?s 0))).
             \<exists>g\<in>set (non_base latin_js (containers ?s 0) sample_svg). byName latin_js g = toLowerCase latin_js n"
    by code_simp
  have st0: "stepLayers_of latin_js (containers ?s 0) sample_svg = [layer 5 ''Step3'', layer 3 ''Step1'']"
    by code_simp
  have nn: "next_node ?s = 6" by (simp add: start_state_def)
  have k0: "kids (containers ?s 0) = []" by (simp add: start_state_def blank_container_def)
  have st: "ctx_stepLayers (fst (build_ctx latin_js 0 sample_svg [] ?s)) =
              [layer 5 ''Step3'', layer 3 ''Step1'']" by (simp add: bc_stepLayers st0)
  have ph: "ctx_placeholders (fst (build_ctx latin_js 0 sample_svg [] ?s)) = [6, 7]"
    by (simp add: bc_placeholders st0 nn upt_6_8)
  note t = include_list_steps[OF h1 h2, of "[]"]
  from t have a: "kids (containers (snd (buildSteps latin_js 0 sample_svg [] ?s)) 0) = [6, 7]"
    unfolding ph k0 by simp
  from t have "\<forall>i < length (toList latin_js (data_include (containers ?s 0))).
            rsvgLayer_of (run ?acts (snd (buildSteps latin_js 0 sample_svg [] ?s)))
              (ctx_placeholders (fst (build_ctx latin_js 0 sample_svg [] ?s)) ! i) =
            Some (ctx_stepLayers (fst (build_ctx latin_js 0 sample_svg [] ?s)) ! i)"
    by blast
  then have "\<forall>i < 2. rsvgLayer_of (run ?acts (snd (buildSteps latin_js 0 sample_svg [] ?s))) ([6, 7] ! i) =
            Some ([layer 5 ''Step3'', layer 3 ''Step1''] ! i)"
    unfolding incl st ph by simp
  from this[rule_format, of 1]
  have b: "rsvgLayer_of (run ?acts (snd (buildSteps latin_js 0 sample_svg [] ?s))) 7 = Some (layer 3 ''Step1'')"
    by simp
  from incl st a b show ?thesis by blast
qed

text \<open>
  C1 as stated fails for \<open>N = 0\<close>: with \<open>data-include=""\<close> the include list is empty,
  \<open>buildSteps\<close> takes the branch for no include list, and all five groups of the sample
  become step layers with five placeholders.
\<close>

theorem empty_include_list_counterexample:
  "toList sample_js (data_include (containers (start_state (blank_container\<lparr>data_include := Some []\<rparr>)) 0)) = [] \<and>
   length (ctx_stepLayers (fst (build_ctx sample_js 0 sample_svg []
      (start_state (blank_container\<lparr>data_include := Some []\<rparr>))))) = 5 \<and>
   kids (containers (snd (buildSteps sample_js 0 sample_svg []
      (start_state (blank_container\<lparr>data_include := Some []\<rparr>)))) 0) = [6, 7, 8, 9, 10]"
proof -
  let ?s = "start_state (blank_container\<lparr>data_include := Some []\<rparr>)"
  have incl: "toList sample_js (data_include (containers ?s 0)) = []" by code_simp
  have st0: "stepLayers_of sample_js (containers ?s 0) sample_svg =
     [layer 1 ''Axes'', layer 2 ''Grid'', layer 3 ''Step1'', layer 4 ''Step2'', layer 5 ''Step3'']"
    by code_simp
  have nn: "next_node ?s = 6" by (simp add: start_state_def)
  have k0: "kids (containers ?s 0) = []" by (simp add: start_state_def blank_container_def)
  show ?thesis
    by (simp add: incl bc_stepLayers buildSteps_kids bc_placeholders st0 nn k0 upt_6_11)
qed

text \<open>
  C2, as amended. Groups labelled Axes, Grid, Step1, Step2, Step3 with
  \<open>data-base="Axes,Grid"\<close> and \<open>data-include="Step1,Step3"\<close>: after \<open>buildSteps\<close> the
  base layers Axes and Grid are visible, two placeholders are appended, the first bound to
  Step1 and the second to Step3, and the visibility of Step2 is what it was before. When no
  earlier placeholder or closure of the plugin refers to Axes, Grid or Step2, this stays so
  through every sequence of deck events and teardown: the base layers stay visible, Step2
  keeps the visibility it had, and no element is ever bound to Step2.
\<close>

theorem scenario_excluded_layer_untouched:
  assumes "data_base (containers s k) = Some ''Axes,Grid''"
      and "data_include (containers s k) = Some ''Step1,Step3''"
      and "1 \<notin> reach s" and "2 \<notin> reach s" and "4 \<notin> reach s"
  shows "1 \<notin> hidden (snd (buildSteps J k sample_svg fc s)) \<and>
         2 \<notin> hidden (snd (buildSteps J k sample_svg fc s)) \<and>
         kids (containers (snd (buildSteps J k sample_svg fc s)) k) =
           kids (containers s k) @ [next_node s, Suc (next_node s)] \<and>
         rsvgLayer_of (snd (buildSteps J k sample_svg fc s)) (next_node s) =
           Some (layer 3 ''Step1'') \<and>
         rsvgLayer_of (snd (buildSteps J k sample_svg fc s)) (Suc (next_node s)) =
           Some (layer 5 ''Step3'') \<and>
         (4 \<in> hidden (snd (buildSteps J k sample_svg fc s))) = (4 \<in> hidden s) \<and>
         (\<forall>acts. 1 \<notin> hidden (run acts (snd (buildSteps J k sample_svg fc s))) \<and>
                 2 \<notin> hidden (run acts (snd (buildSteps J k sample_svg fc s))) \<and>
                 (4 \<in> hidden (run acts (snd (buildSteps J k sample_svg fc s)))) = (4 \<in> hidden s) \<and>
                 (\<forall>p. rsvgLayer_of (run acts (snd (buildSteps J k sample_svg fc s))) p \<noteq>
                        Some (layer 4 ''Step2'')))"
proof -
  let ?c = "containers s k" and ?s' = "snd (buildSteps J k sample_svg fc s)"
  let ?c' = "blank_container\<lparr>data_base := Some ''Axes,Grid'', data_include := Some ''Step1,Step3''\<rparr>"
  have ne: "toList J (data_include ?c) \<noteq> []" by (simp add: assms(2) sample_include)
  have steps: "stepLayers_of J ?c sample_svg = [layer 3 ''Step1'', layer 5 ''Step3'']"
    using stepLayers_of_attr[OF ne, of ?c' sample_svg] assms(1,2) by (simp add: sample_steps)
  have base: "baseLayers_of J ?c sample_svg = [layer 1 ''Axes'', layer 2 ''Grid'']"
    using baseLayers_of_attr[of ?c ?c' J sample_svg] assms(1) by (simp add: sample_base)
  have sn: "g_node ` set (stepLayers_of J ?c sample_svg) = {3, 5}"
    by (auto simp: steps layer_def)
  have bn: "g_node ` set (baseLayers_of J ?c sample_svg) = {1, 2}"
    by (auto simp: base layer_def)
  from buildSteps_hidden[of J k sample_svg fc s]
  have hid: "hidden ?s' \<subseteq> (hidden s - {1, 2}) \<union> {3, 5}"
    and out: "\<forall>m. m \<notin> {3, 5} \<longrightarrow> (m \<in> hidden ?s') = (m \<in> hidden s - {1, 2})"
    unfolding sn bn by blast+
  have v1: "1 \<notin> hidden ?s'" and v2: "2 \<notin> hidden ?s'" using hid by auto
  have v4: "(4 \<in> hidden ?s') = (4 \<in> hidden s)" using out by simp
  have ph: "ctx_placeholders (fst (build_ctx J k sample_svg fc s)) = [next_node s, Suc (next_node s)]"
    by (simp add: bc_placeholders steps upt_conv_Cons)
  have kd: "kids (containers ?s' k) = kids ?c @ [next_node s, Suc (next_node s)]"
    by (simp add: buildSteps_kids ph)
  have b0: "rsvgLayer_of ?s' (next_node s) = Some (layer 3 ''Step1'')"
    using buildSteps_bound[of 0 J s k sample_svg fc] by (simp add: steps ph bc_stepLayers)
  have b1: "rsvgLayer_of ?s' (Suc (next_node s)) = Some (layer 5 ''Step3'')"
    using buildSteps_bound[of 1 J s k sample_svg fc] by (simp add: steps ph bc_stepLayers)
  have r: "reach ?s' \<subseteq> reach s \<union> {3, 5}"
    using buildSteps_reach[of J k sample_svg fc s] unfolding sn .
  have r1: "1 \<notin> reach ?s'" and r2: "2 \<notin> reach ?s'" and r4: "4 \<notin> reach ?s'"
    using r assms(3,4,5) by auto
  have life: "\<forall>acts. 1 \<notin> hidden (run acts ?s') \<and> 2 \<notin> hidden (run acts ?s') \<and>
                 (4 \<in> hidden (run acts ?s')) = (4 \<in> hidden s) \<and>
                 (\<forall>p. rsvgLayer_of (run acts ?s') p \<noteq> Some (layer 4 ''Step2''))"
  proof
    fix acts
    from run_reach[OF r1, of acts] v1 have a: "1 \<notin> hidden (run acts ?s')" by simp
    from run_reach[OF r2, of acts] v2 have b: "2 \<notin> hidden (run acts ?s')" by simp
    from run_reach[OF r4, of acts] v4 have c: "(4 \<in> hidden (run acts ?s')) = (4 \<in> hidden s)"
      and d: "4 \<notin> reach (run acts ?s')" by simp_all
    have "\<forall>p. rsvgLayer_of (run acts ?s') p \<noteq> Some (layer 4 ''Step2'')"
    proof
      fix p
      show "rsvgLayer_of (run acts ?s') p \<noteq> Some (layer 4 ''Step2'')"
      proof
        assume "rsvgLayer_of (run acts ?s') p = Some (layer 4 ''Step2'')"
        then have "g_node (layer 4 ''Step2'') \<in> bound_layers (run acts ?s')"
          unfolding bound_layers_def by blast
        then have "4 \<in> reach (run acts ?s')" by (simp add: reach_def layer_def)
        with d show False by simp
      qed
    qed
    with a b c show "1 \<notin> hidden (run acts ?s') \<and> 2 \<notin> hidden (run acts ?s') \<and>
                 (4 \<in> hidden (run acts ?s')) = (4 \<in> hidden s) \<and>
                 (\<forall>p. rsvgLayer_of (run acts ?s') p \<noteq> Some (layer 4 ''Step2''))" by simp
  qed
  from v1 v2 kd b0 b1 v4 life show ?thesis by blast
qed

theorem scenario_excluded_layer_untouched_witness:
  "data_base (containers (start_state (blank_container\<lparr>data_base := Some ''Axes,Grid'',
       data_include := Some ''Step1,Step3''\<rparr>)) 0) = Some ''Axes,Grid'' \<and>
   data_include (containers (start_state (blank_container\<lparr>data_base := Some ''Axes,Grid'',
       data_include := Some ''Step1,Step3''\<rparr>)) 0) = Some ''Step1,Step3'' \<and>
   1 \<notin> hidden (snd (buildSteps sample_js 0 sample_svg [] (start_state (blank_container
       \<lparr>data_base := Some ''Axes,Grid'', data_include := Some ''Step1,Step3''\<rparr>)))) \<and>
   kids (containers (snd (buildSteps sample_js 0 sample_svg [] (start_state (blank_container
       \<lparr>data_base := Some ''Axes,Grid'', data_include := Some ''Step1,Step3''\<rparr>)))) 0) = [6, 7] \<and>
   rsvgLayer_of (snd (buildSteps sample_js 0 sample_svg [] (start_state (blank_container
       \<lparr>data_base := Some ''Axes,Grid'', data_include := Some ''Step1,Step3''\<rparr>)))) 7 =
     Some (layer 5 ''Step3'') \<and>
   4 \<notin> hidden (run [Emit (Slidechanged (Some [0])), Emit (Fragmenthidden (Some 6))]
     (snd (buildSteps sample_js 0 sample_svg [] (start_state (blank_container
       \<lparr>data_base := Some ''Axes,Grid'', data_include := Some ''Step1,Step3''\<rparr>)))))"
proof -
  let ?s = "start_state (blank_container\<lparr>data_base := Some ''Axes,Grid'',
       data_include := Some ''Step1,Step3''\<rparr>)"
  have h1: "data_base (containers ?s 0) = Some ''Axes,Grid''"
    by (simp add: start_state_def blank_container_def)
  have h2: "data_include (containers ?s 0) = Some ''Step1,Step3''"
    by (simp add: start_state_def blank_container_def)
  have h3: "1 \<notin> reach ?s" and h4: "2 \<notin> reach ?s" and h5: "4 \<notin> reach ?s"
    by (simp_all add: reach_start_state)
  have e: "hidden ?s = {}" "next_node ?s = 6" "kids (containers ?s 0) = []"
    by (simp_all add: start_state_def blank_container_def)
  note t = scenario_excluded_layer_untouched[OF h1 h2 h3 h4 h5, of sample_js "[]"]
  from t have a: "1 \<notin> hidden (snd (buildSteps sample_js 0 sample_svg [] ?s))" by blast
  from t have b: "kids (containers (snd (buildSteps sample_js 0 sample_svg [] ?s)) 0) = [6, 7]"
    unfolding e by simp
  from t have c: "rsvgLayer_of (snd (buildSteps sample_js 0 sample_svg [] ?s)) 7 = Some (layer 5 ''Step3'')"
    unfolding e by simp
  from t have "\<forall>acts. (4 \<in> hidden (run acts (snd (buildSteps sample_js 0 sample_svg [] ?s)))) = (4 \<in> hidden ?s)"
    by blast
  then have d: "4 \<notin> hidden (run [Emit (Slidechanged (Some [0])), Emit (Fragmenthidden (Some 6))]
     (snd (buildSteps sample_js 0 sample_svg [] ?s)))"
    unfolding e by simp
  from h1 h2 a b c d show ?thesis by blast
qed

text \<open>
  C2 as stated says that Step2 is hidden. In a document where no layer carries the class
  \<open>rsvg-hidden\<close> beforehand, Step2 does not carry it after \<open>buildSteps\<close>: the plugin hides
  the step layers only, and Step2 is none.
\<close>

theorem scenario_excluded_layer_counterexample:
  "4 \<notin> hidden (snd (buildSteps sample_js 0 sample_svg [] (start_state (blank_container
       \<lparr>data_base := Some ''Axes,Grid'', data_include := Some ''Step1,Step3''\<rparr>))))"
proof -
  let ?s = "start_state (blank_container\<lparr>data_base := Some ''Axes,Grid'',
       data_include := Some ''Step1,Step3''\<rparr>)"
  have c: "containers ?s 0 = blank_container\<lparr>data_base := Some ''Axes,Grid'',
       data_include := Some ''Step1,Step3''\<rparr>" by (simp add: start_state_def)
  have "hidden ?s = {}" by (simp add: start_state_def)
  moreover have "g_node ` set (stepLayers_of sample_js (containers ?s 0) sample_svg) = {3, 5}"
    by (auto simp: c sample_steps layer_def)
  ultimately show ?thesis using buildSteps_hidden[of sample_js 0 sample_svg "[]" ?s] by auto
qed

section \<open>Claims about events and teardown\<close>



text \<open>
  C8. The handlers of \<open>fragmentshown\<close> and \<open>fragmenthidden\<close>. When the fragment of the
  event carries the uid of the container and is bound to a layer, the handler shows (or
  hides) that layer and changes nothing else; when it carries the uid but is bound to
  nothing, the handler throws before it changes anything; when it carries another uid or
  none, or the event has no fragment, the handler changes nothing. Dispatched through all
  the listeners of the deck, such an event changes at most the visibility of the layer that
  its fragment is bound to.
\<close>

theorem fragment_event_toggles_bound_layer:
  "(uid_of s ph = Some (ctx_uid cx) \<longrightarrow> rsvgLayer_of s ph = Some l \<longrightarrow>
      onFragmentShown cx (Some ph) s = (None, s\<lparr>hidden := hidden s - {g_node l}\<rparr>) \<and>
      onFragmentHidden cx (Some ph) s = (None, s\<lparr>hidden := insert (g_node l) (hidden s)\<rparr>)) \<and>
   (uid_of s ph = Some (ctx_uid cx) \<longrightarrow> rsvgLayer_of s ph = None \<longrightarrow>
      snd (onFragmentShown cx (Some ph) s) = s \<and> snd (onFragmentHidden cx (Some ph) s) = s) \<and>
   (uid_of s ph \<noteq> Some (ctx_uid cx) \<longrightarrow>
      onFragmentShown cx (Some ph) s = (None, s) \<and> onFragmentHidden cx (Some ph) s = (None, s)) \<and>
   onFragmentShown cx None s = (None, s) \<and> onFragmentHidden cx None s = (None, s) \<and>
   (\<exists>H. emit (Fragmentshown f) s = s\<lparr>hidden := H\<rparr> \<and>
        (\<forall>m. (\<forall>p g. f = Some p \<longrightarrow> rsvgLayer_of s p = Some g \<longrightarrow> g_node g \<noteq> m) \<longrightarrow>
             (m \<in> H) = (m \<in> hidden s))) \<and>
   (\<exists>H. emit (Fragmenthidden f) s = s\<lparr>hidden := H\<rparr> \<and>
        (\<forall>m. (\<forall>p g. f = Some p \<longrightarrow> rsvgLayer_of s p = Some g \<longrightarrow> g_node g \<noteq> m) \<longrightarrow>
             (m \<in> H) = (m \<in> hidden s)))"
proof -
  have a: "uid_of s ph = Some (ctx_uid cx) \<longrightarrow> rsvgLayer_of s ph = Some l \<longrightarrow>
      onFragmentShown cx (Some ph) s = (None, s\<lparr>hidden := hidden s - {g_node l}\<rparr>) \<and>
      onFragmentHidden cx (Some ph) s = (None, s\<lparr>hidden := insert (g_node l) (hidden s)\<rparr>)"
    by (simp add: onFragmentShown_def onFragmentHidden_def showLayer_ref_def hideLayer_ref_def
        showLayer_def hideLayer_def)
  have b: "uid_of s ph = Some (ctx_uid cx) \<longrightarrow> rsvgLayer_of s ph = None \<longrightarrow>
      snd (onFragmentShown cx (Some ph) s) = s \<and> snd (onFragmentHidden cx (Some ph) s) = s"
    by (simp add: onFragmentShown_def onFragmentHidden_def showLayer_ref_def hideLayer_ref_def)
  have c: "uid_of s ph \<noteq> Some (ctx_uid cx) \<longrightarrow>
      onFragmentShown cx (Some ph) s = (None, s) \<and> onFragmentHidden cx (Some ph) s = (None, s)"
    by (simp add: onFragmentShown_def onFragmentHidden_def)
  have d: "onFragmentShown cx None s = (None, s) \<and> onFragmentHidden cx None s = (None, s)"
    by (simp add: onFragmentShown_def onFragmentHidden_def)
  have e: "\<exists>H. emit (Fragmentshown f) s = s\<lparr>hidden := H\<rparr> \<and>
        (\<forall>m. (\<forall>p g. f = Some p \<longrightarrow> rsvgLayer_of s p = Some g \<longrightarrow> g_node g \<noteq> m) \<longrightarrow>
             (m \<in> H) = (m \<in> hidden s))"
    by (rule emit_fragment_frame) simp
  have g: "\<exists>H. emit (Fragmenthidden f) s = s\<lparr>hidden := H\<rparr> \<and>
        (\<forall>m. (\<forall>p g. f = Some p \<longrightarrow> rsvgLayer_of s p = Some g \<longrightarrow> g_node g \<noteq> m) \<longrightarrow>
             (m \<in> H) = (m \<in> hidden s))"
    by (rule emit_fragment_frame) simp
  from a b c d e g show ?thesis by blast
qed

theorem fragment_event_toggles_bound_layer_witness:
  "uid_of (snd (buildSteps sample_js 0 sample_svg [] (start_state (blank_container
       \<lparr>data_base := Some ''Axes,Grid'', data_include := Some ''Step1,Step3''\<rparr>)))) 7 =
     Some (ctx_uid (fst (build_ctx sample_js 0 sample_svg [] (start_state (blank_container
       \<lparr>data_base := Some ''Axes,Grid'', data_include := Some ''Step1,Step3''\<rparr>))))) \<and>
   rsvgLayer_of (snd (buildSteps sample_js 0 sample_svg [] (start_state (blank_container
       \<lparr>data_base := Some ''Axes,Grid'', data_include := Some ''Step1,Step3''\<rparr>)))) 7 =
     Some (layer 5 ''Step3'') \<and>
   hidden (snd (onFragmentShown (fst (build_ctx sample_js 0 sample_svg [] (start_state (blank_container
       \<lparr>data_base := Some ''Axes,Grid'', data_include := Some ''Step1,Step3''\<rparr>)))) (Some 7)
     (snd (buildSteps sample_js 0 sample_svg [] (start_state (blank_container
       \<lparr>data_base := Some ''Axes,Grid'', data_include := Some ''Step1,Step3''\<rparr>)))))) =
   hidden (snd (buildSteps sample_js 0 sample_svg [] (start_state (blank_container
       \<lparr>data_base := Some ''Axes,Grid'', data_include := Some ''Step1,Step3''\<rparr>)))) - {5}"
proof -
  let ?s = "start_state (blank_container\<lparr>data_base := Some ''Axes,Grid'',
       data_include := Some ''Step1,Step3''\<rparr>)"
  have c: "containers ?s 0 = blank_container\<lparr>data_base := Some ''Axes,Grid'',
       data_include := Some ''Step1,Step3''\<rparr>" by (simp add: start_state_def)
  have st: "stepLayers_of sample_js (containers ?s 0) sample_svg = [layer 3 ''Step1'', layer 5 ''Step3'']"
    by (simp add: c sample_steps)
  have nn: "next_node ?s = 6" by (simp add: start_state_def)
  have ph: "ctx_placeholders (fst (build_ctx sample_js 0 sample_svg [] ?s)) = [6, 7]"
    by (simp add: bc_placeholders st nn upt_6_8)
  have u: "uid_of (snd (buildSteps sample_js 0 sample_svg [] ?s)) 7 =
             Some (ctx_uid (fst (build_ctx sample_js 0 sample_svg [] ?s)))"
    using buildSteps_uid[of 1 sample_js ?s 0 sample_svg "[]"] by (simp add: st nn)
  have l: "rsvgLayer_of (snd (buildSteps sample_js 0 sample_svg [] ?s)) 7 = Some (layer 5 ''Step3'')"
    using buildSteps_bound[of 1 sample_js ?s 0 sample_svg "[]"] by (simp add: st ph bc_stepLayers)
  from fragment_event_toggles_bound_layer[of "snd (buildSteps sample_js 0 sample_svg [] ?s)" 7
      "fst (build_ctx sample_js 0 sample_svg [] ?s)" "layer 5 ''Step3''" None] u l
  have "onFragmentShown (fst (build_ctx sample_js 0 sample_svg [] ?s)) (Some 7) (snd (buildSteps sample_js 0 sample_svg [] ?s)) =
      (None, (snd (buildSteps sample_js 0 sample_svg [] ?s))\<lparr>hidden := hidden (snd (buildSteps sample_js 0 sample_svg [] ?s))
          - {g_node (layer 5 ''Step3'')}\<rparr>)"
    by blast
  then have "hidden (snd (onFragmentShown (fst (build_ctx sample_js 0 sample_svg [] ?s)) (Some 7)
      (snd (buildSteps sample_js 0 sample_svg [] ?s)))) = hidden (snd (buildSteps sample_js 0 sample_svg [] ?s)) - {5}"
    by (simp add: layer_def)
  with u l show ?thesis by blast
qed

section \<open>Claims about loading and initialisation\<close>

text \<open>
  C5, as amended. A container that is not yet processed, has no inline graphic and names an
  external one, when the retrieval fails (the request is rejected, the status is not a
  success, or the body cannot be read): \<open>initContainer\<close> returns without an error, and the
  resulting state is the state before with the container marked as processed and one line
  added to the console. So no placeholder is created, no layer changes its visibility, no
  listener is registered, and every other container is as it was.
\<close>

theorem load_failure_stops_container:
  assumes "\<not> rsvgProcessed (containers s k)"
      and "inline_svg (containers s k) = None"
      and "data_src (containers s k) = Some src" and "src \<noteq> []"
      and "fetch e src = Inl err \<or>
           (\<exists>res. fetch e src = Inr res \<and> \<not> res_ok res \<and>
                  err = Error (''Failed to load SVG: '' @ src)) \<or>
           (\<exists>res. fetch e src = Inr res \<and> res_ok res \<and> res_text res = Inl err)"
  shows "initContainer J e k s =
           (None, s\<lparr>containers := (containers s)(k := (containers s k)\<lparr>rsvgProcessed := True\<rparr>),
                    console := console s @ [''[svg-layers] '' @ message err]\<rparr>)"
proof -
  let ?s1 = "s\<lparr>containers := (containers s)(k := (containers s k)\<lparr>rsvgProcessed := True\<rparr>)\<rparr>"
  have "inlineExternalSvg k src e ?s1 = Inl err"
    using assms(5) by (rule inlineExternalSvg_fails)
  then show ?thesis
    using assms(1-4) by (simp add: initContainer_def Let_def truthy_def)
qed

theorem load_failure_stops_container_witness:
  "initContainer sample_js failing_env 0 (start_state (blank_container\<lparr>data_src := Some ''fig.svg''\<rparr>)) =
     (None, (start_state (blank_container\<lparr>data_src := Some ''fig.svg''\<rparr>))
        \<lparr>containers := (containers (start_state (blank_container\<lparr>data_src := Some ''fig.svg''\<rparr>)))
           (0 := (containers (start_state (blank_container\<lparr>data_src := Some ''fig.svg''\<rparr>)) 0)
                    \<lparr>rsvgProcessed := True\<rparr>),
         console := [''[svg-layers] Failed to load SVG: fig.svg'']\<rparr>)"
proof -
  let ?s = "start_state (blank_container\<lparr>data_src := Some ''fig.svg''\<rparr>)"
  have h1: "\<not> rsvgProcessed (containers ?s 0)" by (simp add: start_state_def blank_container_def)
  have h2: "inline_svg (containers ?s 0) = None" by (simp add: start_state_def blank_container_def)
  have h3: "data_src (containers ?s 0) = Some ''fig.svg''"
    by (simp add: start_state_def blank_container_def)
  have h4: "''fig.svg'' \<noteq> []" by simp
  have h5: "fetch failing_env ''fig.svg'' = Inl (Error (''Failed to load SVG: '' @ ''fig.svg'')) \<or>
           (\<exists>res. fetch failing_env ''fig.svg'' = Inr res \<and> \<not> res_ok res \<and>
                  Error (''Failed to load SVG: '' @ ''fig.svg'') = Error (''Failed to load SVG: '' @ ''fig.svg'')) \<or>
           (\<exists>res. fetch failing_env ''fig.svg'' = Inr res \<and> res_ok res \<and>
                  res_text res = Inl (Error (''Failed to load SVG: '' @ ''fig.svg'')))"
    by (simp add: failing_env_def)
  have c: "console ?s = []" by (simp add: start_state_def)
  from load_failure_stops_container[OF h1 h2 h3 h4 h5] show ?thesis by (simp add: c)
qed

text \<open>
  C5 as stated covers a parse error of the retrieved markup as well. The parser does not
  throw for malformed markup, and \<open>inlineExternalSvg\<close> does not look at what it returns:
  nothing is logged, the root of the error document is appended to the container, and
  \<open>buildSteps\<close> runs on it, registers its three listeners and its teardown function.
\<close>

theorem parse_error_counterexample:
  "parsererror (parseFromString broken_env ''<svg'') \<and>
   fetch broken_env ''fig.svg'' = Inr \<lparr>res_ok = True, res_text = Inr ''<svg''\<rparr> \<and>
   console (snd (initContainer sample_js broken_env 0
      (start_state (blank_container\<lparr>data_src := Some ''fig.svg''\<rparr>)))) = [] \<and>
   kids (containers (snd (initContainer sample_js broken_env 0
      (start_state (blank_container\<lparr>data_src := Some ''fig.svg''\<rparr>)))) 0) = [6] \<and>
   length (listeners (snd (initContainer sample_js broken_env 0
      (start_state (blank_container\<lparr>data_src := Some ''fig.svg''\<rparr>))))) = 3 \<and>
   length (teardownFns (snd (initContainer sample_js broken_env 0
      (start_state (blank_container\<lparr>data_src := Some ''fig.svg''\<rparr>))))) = 1"
proof -
  let ?s = "start_state (blank_container\<lparr>data_src := Some ''fig.svg''\<rparr>)"
  let ?s1 = "?s\<lparr>containers := (containers ?s)(0 := (containers ?s 0)\<lparr>rsvgProcessed := True\<rparr>)\<rparr>"
  let ?svg = "\<lparr>svg_node = 6, width_attr = None, height_attr = None,
         style_attr = Some ''max-width:100%; height:auto; display:block;'', groups = [],
         parsererror = True\<rparr>"
  let ?s2 = "appendChild 0 6 (?s1\<lparr>next_node := 7\<rparr>)"
  have i: "inlineExternalSvg 0 ''fig.svg'' broken_env ?s1 = Inr (?svg, ?s2)"
    by (simp add: inlineExternalSvg_def broken_env_def importNode_def Let_def truthy_def
        start_state_def)
  have p: "\<not> rsvgProcessed (containers ?s 0)" "inline_svg (containers ?s 0) = None"
    "data_src (containers ?s 0) = Some ''fig.svg''" "opt_fragmentClass broken_env = []"
    by (simp_all add: start_state_def blank_container_def broken_env_def)
  have ic: "initContainer sample_js broken_env 0 ?s = buildSteps sample_js 0 ?svg [] ?s2"
    by (simp add: initContainer_def Let_def truthy_def p i)
  have st: "stepLayers_of sample_js (containers ?s2 0) ?svg = []"
    using stepLayers_subset[of sample_js "containers ?s2 0" ?svg]
    by (simp add: non_base_def findLayers_def)
  have a: "console (snd (buildSteps sample_js 0 ?svg [] ?s2)) = []"
    by (simp add: buildSteps_fields appendChild_def start_state_def)
  have b: "kids (containers (snd (buildSteps sample_js 0 ?svg [] ?s2)) 0) = [6]"
    by (simp add: buildSteps_kids bc_placeholders st)
       (simp add: appendChild_def start_state_def blank_container_def)
  have c: "length (listeners (snd (buildSteps sample_js 0 ?svg [] ?s2))) = 3"
    by (simp add: buildSteps_fields appendChild_def start_state_def)
  have d: "length (teardownFns (snd (buildSteps sample_js 0 ?svg [] ?s2))) = 1"
    by (simp add: buildSteps_fields appendChild_def start_state_def)
  have e: "parsererror (parseFromString broken_env ''<svg'')" by (simp add: broken_env_def)
  have f: "fetch broken_env ''fig.svg'' = Inr \<lparr>res_ok = True, res_text = Inr ''<svg''\<rparr>"
    by (simp add: broken_env_def)
  from a b c d e f show ?thesis unfolding ic by blast
qed

text \<open>
  C9. Initialisation is idempotent. A second \<open>initContainer\<close> on a container returns at
  once and leaves the state of the first as it is: no placeholder, listener or teardown
  function is added. A second scan of \<open>initAll\<close> leaves the decoration of every element
  (grip, HUD, its button's listener, the drag closures with their listeners, the resize
  observer) and the number of style elements as the first scan left them.
\<close>

theorem initialisation_idempotent:
  "initContainer J e k (snd (initContainer J e k s)) = (None, snd (initContainer J e k s)) \<and>
   decoration (scan (scan el)) = decoration (scan el) \<and>
   style_tags (initAll (initAll d)) = style_tags (initAll d) \<and>
   map decoration (floats (initAll (initAll d))) = map decoration (floats (initAll d))"
proof -
  have a: "initContainer J e k (snd (initContainer J e k s)) = (None, snd (initContainer J e k s))"
    using initContainer_marks[of J e k s] by (simp add: initContainer_def)
  have b: "style_tags (initAll (initAll d)) = style_tags (initAll d)"
    by (simp add: initAll_def injectStyles_def Let_def)
  have c: "map decoration (floats (initAll (initAll d))) = map decoration (floats (initAll d))"
    by (simp add: initAll_def injectStyles_def Let_def scan_all_twice)
  from a b c scan_scan show ?thesis by blast
qed

section \<open>Claims about the floating debug helper\<close>

text \<open>
  C3. The four style variables \<open>--floating-left\<close>, \<open>--floating-top\<close>, \<open>--floating-w\<close> and
  \<open>--floating-h\<close> are to be written once when a drag or a resize gesture completes, and
  not before. On an element after its first scan: a resize gesture (pointer down on the
  resize handle, notifications of the resize observer, pointer up) writes none of them;
  a drag that has not ended has written none of them; a drag that has ended has written
  each of them once.
\<close>

theorem resize_gesture_commits_nothing:
  "committed (gesture [PointerDown False False, ResizeTick, ResizeTick, PointerUp]
     (scan blank_floating)) = [] \<and>
   committed (gesture [PointerDown True False, PointerMove, ResizeTick, PointerMove]
     (scan blank_floating)) = [] \<and>
   committed (gesture [PointerDown True False, PointerMove, ResizeTick, PointerMove, PointerUp]
     (scan blank_floating)) =
     [''--floating-left'', ''--floating-top'', ''--floating-w'', ''--floating-h'']"
  by code_simp

end
